theory Spec2Isabelle
  imports Complex_Main
begin

section \<open>Relaxed 1-D isentrope profiles (contrib/ipython/Create\_1D\_ASPECT\_profile.ipynb)\<close>

text \<open>
  The notebook computes with IEEE doubles through numpy and scipy. The embedding works over
  the reals: every arithmetic operation is the exact one, so rounding, overflow, infinities
  and NaN are outside the model, except in \<open>compute_depth_gravity_profiles\<close>, whose
  arithmetic is rounded to doubles. Library routines (scipy's root finders, splines and ODE
  integrator) are not part of the notebook; where a property needs more than their calling
  convention they are written out, otherwise the numerical kernel is a parameter.
\<close>

subsection \<open>Errors\<close>

text \<open>
  Python exceptions as values. \<open>RootNotBracketed\<close> is the \<open>ValueError\<close> of
  \<open>brentq\<close> ("f(a) and f(b) must have different signs"), \<open>NonConvergence\<close> its
  \<open>RuntimeError\<close> ("Failed to converge after 100 iterations"), \<open>PropertySourceError\<close>
  whatever the property evaluator raises when it rejects a state, \<open>FitError\<close> a failed
  spline fit, \<open>ImproperInput\<close> the \<open>TypeError\<close> of \<open>fsolve\<close>.
\<close>

datatype error =
    RootNotBracketed
  | NonConvergence
  | PropertySourceError
  | IndexError
  | ValueError
  | FitError
  | ImproperInput

subsection \<open>The property evaluator\<close>

datatype property =
    Prop_S
  | Prop_V
  | Prop_rho
  | Prop_p_wave_velocity
  | Prop_shear_wave_velocity

text \<open>
  Modelled from the spec: the class \<open>burnman.PerplexMaterial\<close> behind the variable
  \<open>rock\<close> is not in the notebook. The spec gives its interface: a property table over
  (pressure, temperature), \<open>set_state(pressure, temperature)\<close> followed by attribute-style
  reads of the properties at that point, \<open>evaluate(names, pressures, temperatures)\<close>, the
  valid bounds as a pair of pairs, and a molar mass. Which states the evaluator rejects
  (\<open>PropertySourceError\<close>) is the field \<open>accepts\<close>; the point last set is the field
  \<open>state\<close>, \<open>None\<close> on a fresh evaluator.
\<close>

record rock =
  table :: "property \<Rightarrow> real \<Rightarrow> real \<Rightarrow> real"
  bounds :: "(real \<times> real) \<times> (real \<times> real)"
  molar_mass :: real
  accepts :: "real \<Rightarrow> real \<Rightarrow> bool"
  state :: "(real \<times> real) option"

definition set_state :: "real \<Rightarrow> real \<Rightarrow> rock \<Rightarrow> error + rock" where
  "set_state P T r =
     (if accepts r P T then Inr (r\<lparr>state := Some (P, T)\<rparr>) else Inl PropertySourceError)"

definition read_property :: "property \<Rightarrow> rock \<Rightarrow> error + real" where
  "read_property q r =
     (case state r of
        None \<Rightarrow> Inl PropertySourceError
      | Some (P, T) \<Rightarrow> Inr (table r q P T))"

subsection \<open>scipy.optimize.brentq\<close>

text \<open>
  A callback is a function of the trial point that may raise and may change the state it
  closes over (here: the evaluator).
\<close>

type_synonym 's callback = "real \<Rightarrow> 's \<Rightarrow> (error + real) \<times> 's"

text \<open>
  \<open>brentq(f, a, b, args)\<close> with its defaults \<open>xtol = 2e-12\<close>, \<open>rtol = 4 * eps\<close> and
  \<open>maxiter = 100\<close>, after scipy's \<open>Zeros/brentq.c\<close>. The routine evaluates \<open>f\<close> at both
  ends of the bracket, refuses a bracket without a sign change, and then iterates on the
  triple (previous, current, bracketing) point. An exception of the callback propagates.
  Where a step's formula divides by zero the doubles give an infinity or a NaN, which fails
  the acceptance test, so the step is a bisection; \<open>brent_stry\<close> is \<open>None\<close> there.
\<close>

definition brentq_xtol :: real where
  "brentq_xtol = 2 / 10 ^ 12"

definition brentq_rtol :: real where
  "brentq_rtol = 4 / 2 ^ 52"

definition brentq_maxiter :: nat where
  "brentq_maxiter = 100"

record brent_vars =
  xpre :: real
  xcur :: real
  xblk :: real
  fpre :: real
  fcur :: real
  fblk :: real
  spre :: real
  scur :: real

definition brent_rebracket :: "brent_vars \<Rightarrow> brent_vars" where
  "brent_rebracket v =
     (if fpre v * fcur v < 0
      then v\<lparr>xblk := xpre v, fblk := fpre v, spre := xcur v - xpre v, scur := xcur v - xpre v\<rparr>
      else v)"

definition brent_swap :: "brent_vars \<Rightarrow> brent_vars" where
  "brent_swap v =
     (if \<bar>fblk v\<bar> < \<bar>fcur v\<bar>
      then v\<lparr>xpre := xcur v, xcur := xblk v, xblk := xcur v,
             fpre := fcur v, fcur := fblk v, fblk := fcur v\<rparr>
      else v)"

definition brent_delta :: "brent_vars \<Rightarrow> real" where
  "brent_delta v = (brentq_xtol + brentq_rtol * \<bar>xcur v\<bar>) / 2"

definition brent_sbis :: "brent_vars \<Rightarrow> real" where
  "brent_sbis v = (xblk v - xcur v) / 2"

definition brent_stry :: "brent_vars \<Rightarrow> real option" where
  "brent_stry v =
     (if xpre v = xblk v
      then (if fcur v - fpre v = 0 then None
            else Some (- fcur v * (xcur v - xpre v) / (fcur v - fpre v)))
      else (if xpre v - xcur v = 0 \<or> xblk v - xcur v = 0 then None
            else (let dpre = (fpre v - fcur v) / (xpre v - xcur v);
                      dblk = (fblk v - fcur v) / (xblk v - xcur v)
                  in if dblk * dpre * (fblk v - fpre v) = 0 then None
                     else Some (- fcur v * (fblk v * dblk - fpre v * dpre)
                                 / (dblk * dpre * (fblk v - fpre v))))))"

definition brent_choose :: "brent_vars \<Rightarrow> brent_vars" where
  "brent_choose v =
     (let delta = brent_delta v; sbis = brent_sbis v;
          bisect = v\<lparr>spre := sbis, scur := sbis\<rparr>
      in if \<bar>spre v\<bar> > delta \<and> \<bar>fcur v\<bar> < \<bar>fpre v\<bar>
         then (case brent_stry v of
                 None \<Rightarrow> bisect
               | Some stry \<Rightarrow>
                   if 2 * \<bar>stry\<bar> < min \<bar>spre v\<bar> (3 * \<bar>sbis\<bar> - delta)
                   then v\<lparr>spre := scur v, scur := stry\<rparr>
                   else bisect)
         else bisect)"

definition brent_advance :: "brent_vars \<Rightarrow> brent_vars" where
  "brent_advance v =
     (let delta = brent_delta v; sbis = brent_sbis v
      in v\<lparr>xpre := xcur v, fpre := fcur v,
            xcur := xcur v + (if \<bar>scur v\<bar> > delta then scur v
                              else if sbis > 0 then delta else - delta)\<rparr>)"

fun brentq_loop :: "'s callback \<Rightarrow> nat \<Rightarrow> brent_vars \<Rightarrow> 's \<Rightarrow> (error + real) \<times> 's" where
  "brentq_loop f 0 v s = (Inl NonConvergence, s)"
| "brentq_loop f (Suc n) v s =
     (let v1 = brent_swap (brent_rebracket v)
      in if fcur v1 = 0 \<or> \<bar>brent_sbis v1\<bar> < brent_delta v1 then (Inr (xcur v1), s)
         else (let v2 = brent_advance (brent_choose v1)
               in (case f (xcur v2) s of
                     (Inl e, s') \<Rightarrow> (Inl e, s')
                   | (Inr y, s') \<Rightarrow> brentq_loop f n (v2\<lparr>fcur := y\<rparr>) s')))"

definition brentq :: "'s callback \<Rightarrow> real \<Rightarrow> real \<Rightarrow> 's \<Rightarrow> (error + real) \<times> 's" where
  "brentq f a b s =
     (case f a s of
        (Inl e, s1) \<Rightarrow> (Inl e, s1)
      | (Inr fa, s1) \<Rightarrow>
          (case f b s1 of
             (Inl e, s2) \<Rightarrow> (Inl e, s2)
           | (Inr fb, s2) \<Rightarrow>
               if fa * fb > 0 then (Inl RootNotBracketed, s2)
               else if fa = 0 then (Inr a, s2)
               else if fb = 0 then (Inr b, s2)
               else brentq_loop f brentq_maxiter
                      \<lparr>xpre = a, xcur = b, xblk = 0, fpre = fa, fcur = fb, fblk = 0,
                       spre = 0, scur = 0\<rparr> s2))"

subsection \<open>The isentrope solver\<close>

text \<open>
  \<open>_deltaS(T, S, P, rock)\<close>: sets the evaluator to (P, T) and reads its entropy.
\<close>

definition deltaS :: "real \<Rightarrow> real \<Rightarrow> real \<Rightarrow> rock \<Rightarrow> (error + real) \<times> rock" where
  "deltaS T S0 P r =
     (case set_state P T r of
        Inl e \<Rightarrow> (Inl e, r)
      | Inr r' \<Rightarrow>
          (case read_property Prop_S r' of
             Inl e \<Rightarrow> (Inl e, r')
           | Inr S \<Rightarrow> (Inr (S - S0), r')))"

text \<open>
  The loop of \<open>isentrope\<close>: \<open>sol\<close> starts as \<open>T_guess\<close> and is overwritten by each solve;
  the temperatures are collected in the order of the pressures.
\<close>

fun isentrope_loop :: "rock \<Rightarrow> real list \<Rightarrow> real \<Rightarrow> real \<Rightarrow> (error + real list) \<times> rock" where
  "isentrope_loop r [] entropy sol = (Inr [], r)"
| "isentrope_loop r (P # Ps) entropy sol =
     (case brentq (\<lambda>T. deltaS T entropy P) (fst (snd (bounds r))) (snd (snd (bounds r))) r of
        (Inl e, r') \<Rightarrow> (Inl e, r')
      | (Inr sol', r') \<Rightarrow>
          (case isentrope_loop r' Ps entropy sol' of
             (Inl e, r'') \<Rightarrow> (Inl e, r'')
           | (Inr temperatures, r'') \<Rightarrow> (Inr (sol' # temperatures), r'')))"

definition isentrope :: "rock \<Rightarrow> real list \<Rightarrow> real \<Rightarrow> real \<Rightarrow> (error + real list) \<times> rock" where
  "isentrope r pressures entropy T_guess = isentrope_loop r pressures entropy T_guess"

subsection \<open>Predicates on the root finder\<close>

text \<open>
  \<open>callback_computes I f g\<close>: on states satisfying \<open>I\<close> the callback returns the
  value of the pure function \<open>g\<close> and keeps \<open>I\<close>. \<open>brent_inv\<close> holds at the head of
  the loop of \<open>brentq\<close>, \<open>brent_bracketed\<close> at its convergence test.
  \<open>near_sign_change g x\<close>: \<open>x\<close> is a zero of \<open>g\<close>, or \<open>g\<close> changes sign between
  \<open>x\<close> and a point closer to it than \<open>xtol + rtol * |x|\<close>.
\<close>

definition brent_inv :: "(real \<Rightarrow> real) \<Rightarrow> brent_vars \<Rightarrow> bool" where
  "brent_inv g v \<longleftrightarrow>
     fpre v = g (xpre v) \<and> fcur v = g (xcur v) \<and>
     (fpre v * fcur v < 0 \<or> (fblk v = g (xblk v) \<and> fblk v * fcur v \<le> 0))"

definition brent_bracketed :: "(real \<Rightarrow> real) \<Rightarrow> brent_vars \<Rightarrow> bool" where
  "brent_bracketed g v \<longleftrightarrow>
     fpre v = g (xpre v) \<and> fcur v = g (xcur v) \<and> fblk v = g (xblk v) \<and> fblk v * fcur v \<le> 0"

definition near_sign_change :: "(real \<Rightarrow> real) \<Rightarrow> real \<Rightarrow> bool" where
  "near_sign_change g x \<longleftrightarrow>
     g x = 0 \<or> (\<exists>x'. \<bar>x' - x\<bar> < brentq_xtol + brentq_rtol * \<bar>x\<bar> \<and> g x' * g x \<le> 0)"

definition callback_computes :: "('s \<Rightarrow> bool) \<Rightarrow> 's callback \<Rightarrow> (real \<Rightarrow> real) \<Rightarrow> bool" where
  "callback_computes I f g \<longleftrightarrow>
     (\<forall>x s y s'. I s \<longrightarrow> f x s = (Inr y, s') \<longrightarrow> y = g x \<and> I s')"

subsection \<open>Evaluators that differ only in the point last set\<close>

definition same_table :: "rock \<Rightarrow> rock \<Rightarrow> bool" where
  "same_table r r' \<longleftrightarrow> r'\<lparr>state := None\<rparr> = r\<lparr>state := None\<rparr>"

subsection \<open>Example evaluators\<close>

text \<open>
  \<open>rock_step\<close>: the entropy rises by 1000 units across one kelvin around 1500 K (a smeared
  phase transition) and is flat outside; the target entropy 0 is met at
  \<open>T = 1500 + 1e-12\<close>. The state is the one the notebook sets before solving,
  \<open>set_state(1e5, potential_temperature)\<close>. \<open>T_step\<close> is what \<open>isentrope\<close> returns
  on it.
\<close>

definition rock_step :: rock where
  "rock_step =
     \<lparr>table = (\<lambda>q P T. max (- 500) (min 500 (1000 * (T - 1500) - 1 / 10 ^ 9))),
      bounds = ((0, 10 ^ 11), (1000, 2000)), molar_mass = 1,
      accepts = (\<lambda>P T. True), state = Some (100000, 1550)\<rparr>"

definition T_step :: real where
  "T_step = 206158430208000228991687847 / 137438953472000000000000"

subsection \<open>scipy.optimize.fsolve and the smoothed isentrope solver\<close>

text \<open>
  \<open>fsolve(func, x0, args)\<close> wraps MINPACK's \<open>hybrd\<close>, which is a parameter here: it takes
  the residual function and the starting point and gives its last iterate with MINPACK's
  status. \<open>fsolve\<close> returns "the solution (or the result of the last iteration for an
  unsuccessful call)": status 1 is convergence; on 2 (the number of calls has reached
  \<open>maxfev\<close>), 3, 4 and 5 (no progress) it only issues a \<open>RuntimeWarning\<close>; any other
  status is a \<open>TypeError\<close>.
\<close>

type_synonym hybrd = "(real \<Rightarrow> real) \<Rightarrow> real \<Rightarrow> real \<times> int"

definition fsolve :: "hybrd \<Rightarrow> (real \<Rightarrow> real) \<Rightarrow> real \<Rightarrow> error + real" where
  "fsolve hybrd func x0 =
     (let (x, info) = hybrd func x0
      in if info = 1 then Inr x
         else if info \<in> {2, 3, 4, 5} then Inr x
         else Inl ImproperInput)"

text \<open>
  \<open>interp_isentrope(interp, pressures, entropy, T_guess)\<close>: \<open>interp\<close> is the smoothed
  entropy field, queried at (P, T). Each solve starts from the previous solution.
\<close>

fun interp_isentrope_loop ::
  "hybrd \<Rightarrow> (real \<Rightarrow> real \<Rightarrow> real) \<Rightarrow> real list \<Rightarrow> real \<Rightarrow> real \<Rightarrow> error + real list" where
  "interp_isentrope_loop hybrd interp [] entropy sol = Inr []"
| "interp_isentrope_loop hybrd interp (P # Ps) entropy sol =
     (case fsolve hybrd (\<lambda>T. interp P T - entropy) sol of
        Inl e \<Rightarrow> Inl e
      | Inr sol' \<Rightarrow>
          (case interp_isentrope_loop hybrd interp Ps entropy sol' of
             Inl e \<Rightarrow> Inl e
           | Inr temperatures \<Rightarrow> Inr (sol' # temperatures)))"

definition interp_isentrope ::
  "hybrd \<Rightarrow> (real \<Rightarrow> real \<Rightarrow> real) \<Rightarrow> real list \<Rightarrow> real \<Rightarrow> real \<Rightarrow> error + real list" where
  "interp_isentrope hybrd interp pressures entropy T_guess =
     interp_isentrope_loop hybrd interp pressures entropy T_guess"

text \<open>
  A stand-in for \<open>hybrd\<close>, for the examples only: Newton's iteration with a
  forward-difference slope, at most \<open>maxfev = 400\<close> evaluations (two per step), status 2
  when they are used up and 5 when the slope vanishes and no step can be made.
\<close>

fun hybrd_newton_loop :: "nat \<Rightarrow> (real \<Rightarrow> real) \<Rightarrow> real \<Rightarrow> real \<times> int" where
  "hybrd_newton_loop 0 func x = (x, 2)"
| "hybrd_newton_loop (Suc n) func x =
     (let y = func x
      in if y = 0 then (x, 1)
         else (let d = (func (x + 1 / 10 ^ 8) - y) * 10 ^ 8
               in if d = 0 then (x, 5) else hybrd_newton_loop n func (x - y / d)))"

definition hybrd_newton :: hybrd where
  "hybrd_newton func x0 = hybrd_newton_loop 200 func x0"

subsection \<open>Targets the evaluator does not span\<close>

text \<open>
  The target entropy is spanned at a pressure when it lies between two entropies the
  evaluator takes at that pressure within its temperature bounds.
\<close>

definition entropy_spanned :: "rock \<Rightarrow> real \<Rightarrow> real \<Rightarrow> bool" where
  "entropy_spanned r P S0 \<longleftrightarrow>
     (\<exists>T1 T2. fst (snd (bounds r)) \<le> T1 \<and> T1 \<le> snd (snd (bounds r)) \<and>
              fst (snd (bounds r)) \<le> T2 \<and> T2 \<le> snd (snd (bounds r)) \<and>
              table r Prop_S P T1 \<le> S0 \<and> S0 \<le> table r Prop_S P T2)"

text \<open>\<open>rock_lin\<close>: entropy equal to the temperature, between 1000 K and 2000 K.\<close>

definition rock_lin :: rock where
  "rock_lin =
     \<lparr>table = (\<lambda>q P T. T), bounds = ((0, 10 ^ 11), (1000, 2000)), molar_mass = 1,
      accepts = (\<lambda>P T. True), state = Some (100000, 1550)\<rparr>"

subsection \<open>numpy.interp\<close>

text \<open>
  \<open>np.interp(x, xp, fp)\<close> for increasing \<open>xp\<close>: \<open>fp[0]\<close> to the left of the sample
  points, \<open>fp[-1]\<close> to the right, and in between the line through the two neighbouring
  samples. It raises \<open>ValueError\<close> when \<open>xp\<close> is empty or \<open>fp\<close> has another length.
\<close>

fun interp_segment :: "real \<Rightarrow> real list \<Rightarrow> real list \<Rightarrow> real" where
  "interp_segment x (x0 # x1 # xp) (f0 # f1 # fp) =
     (if x < x1
      then (if x0 = x then f0 else (f1 - f0) / (x1 - x0) * (x - x0) + f0)
      else interp_segment x (x1 # xp) (f1 # fp))"
| "interp_segment x [x0] (f0 # fp) = f0"
| "interp_segment x xp fp = 0"

definition np_interp1 :: "real \<Rightarrow> real list \<Rightarrow> real list \<Rightarrow> real" where
  "np_interp1 x xp fp =
     (if x > last xp then last fp
      else if x < hd xp then hd fp
      else interp_segment x xp fp)"

definition np_interp :: "real list \<Rightarrow> real list \<Rightarrow> real list \<Rightarrow> error + real list" where
  "np_interp xs xp fp =
     (if xp = [] \<or> length fp \<noteq> length xp then Inl ValueError
      else Inr (map (\<lambda>x. np_interp1 x xp fp) xs))"

subsection \<open>Double precision\<close>

text \<open>
  The notebook computes in IEEE 754 double precision. \<open>fl\<close> rounds a real to the nearest
  number with a significand of 53 bits, ties to even; the result of one arithmetic operation
  on doubles is \<open>fl\<close> of the exact result. The exponent range is not bounded here: no
  overflow, no subnormal numbers, no infinities and no NaN. The model rounds the arithmetic
  of \<open>compute_depth_gravity_profiles\<close>, whose first gravity sample is compared with the
  input as a double; elsewhere it computes over the reals.
\<close>

definition round_half_even :: "real \<Rightarrow> int" where
  "round_half_even x =
     (let f = \<lfloor>x\<rfloor>; d = x - of_int f
      in if d < 1 / 2 then f else if d > 1 / 2 then f + 1 else if even f then f else f + 1)"

definition binary_exponent :: "real \<Rightarrow> int" where
  "binary_exponent x = \<lfloor>log 2 \<bar>x\<bar>\<rfloor>"

definition fl :: "real \<Rightarrow> real" where
  "fl x =
     (if x = 0 then 0
      else (let e = binary_exponent x - 52
            in of_int (round_half_even (x / 2 powi e)) * 2 powi e))"

subsection \<open>Splines and the ODE integrator\<close>

text \<open>
  \<open>UnivariateSpline(x, y)\<close> fits a smoothing spline and gives a callable; the fit is a
  parameter of the model and may fail. \<open>odeint(func, y0, t)\<close> gives the solution at each
  time of \<open>t\<close>, "with the initial value \<open>y0\<close> in the first row"; the values at the later
  times come from LSODA, a parameter (the solution at the \<open>i\<close>-th time). The notebook
  integrates scalar equations and flattens the result with \<open>np.ravel\<close>.
\<close>

type_synonym spline_fit = "real list \<Rightarrow> real list \<Rightarrow> error + (real \<Rightarrow> real)"

text \<open>
  What is known of every \<open>UnivariateSpline\<close>, whatever the fit \<open>fitpack\<close> behind it does:
  with its default degree \<open>k = 3\<close> the constructor needs more samples than the degree and
  raises when given three or fewer.
\<close>

definition UnivariateSpline :: "spline_fit \<Rightarrow> spline_fit" where
  "UnivariateSpline fitpack x y = (if length x \<le> 3 then Inl FitError else fitpack x y)"

type_synonym lsoda = "(real \<Rightarrow> real \<Rightarrow> real) \<Rightarrow> real \<Rightarrow> real list \<Rightarrow> nat \<Rightarrow> real"

definition odeint :: "lsoda \<Rightarrow> (real \<Rightarrow> real \<Rightarrow> real) \<Rightarrow> real \<Rightarrow> real list \<Rightarrow> real list" where
  "odeint lsoda func y0 t = map (\<lambda>i. if i = 0 then y0 else lsoda func y0 t i) [0..<length t]"

subsection \<open>Depth and gravity profiles\<close>

text \<open>
  One pass of the loop of \<open>compute_depth_gravity_profiles\<close>: the hydrostatic equation
  gives the depths from the current gravity, Poisson's equation gives the next gravity.
  \<open>G\<close> is \<open>burnman.constants.G\<close>. The second \<open>UnivariateSpline\<close> is fitted before
  \<open>radii[0]\<close> is read. Every arithmetic operation of the notebook is rounded to a double,
  in the order Python evaluates it; \<open>np.pi\<close> is the double nearest to \<open>pi\<close>.
\<close>

definition n_gravity_iterations :: nat where
  "n_gravity_iterations = 5"

definition gravity_pass ::
  "spline_fit \<Rightarrow> lsoda \<Rightarrow> real \<Rightarrow> real list \<Rightarrow> real list \<Rightarrow> real \<Rightarrow> real \<Rightarrow> real list
     \<Rightarrow> error + (real list \<times> real list)" where
  "gravity_pass spline lsoda G pressures densities surface_gravity outer_radius gravity =
     (case spline pressures densities of
        Inl e \<Rightarrow> Inl e
      | Inr rhofunc \<Rightarrow>
          (case spline pressures gravity of
             Inl e \<Rightarrow> Inl e
           | Inr gfunc \<Rightarrow>
               (let depths = odeint lsoda (\<lambda>p x. fl (1 / fl (gfunc x * rhofunc x))) 0 pressures;
                    radii = map (\<lambda>d. fl (outer_radius - d)) depths
                in (case spline (rev radii) (rev densities) of
                      Inl e \<Rightarrow> Inl e
                    | Inr rhofunc' \<Rightarrow>
                        (case radii of
                           [] \<Rightarrow> Inl IndexError
                         | r0 # _ \<Rightarrow>
                             (let poisson =
                                    (\<lambda>p x. fl (fl (fl (fl (fl (4 * fl pi) * G) * rhofunc' x) * x) * x));
                                  gravity' = odeint lsoda poisson
                                               (fl (fl (surface_gravity * r0) * r0)) radii
                              in Inr (depths,
                                      map2 (\<lambda>g r. fl (fl (g / r) / r)) gravity' radii)))))))"

text \<open>
  The loop runs \<open>n_gravity_iterations\<close> times on the pair (depths, gravity); \<open>depths\<close> is
  unbound before the first pass, which the empty list stands for.
\<close>

fun gravity_iterations ::
  "nat \<Rightarrow> spline_fit \<Rightarrow> lsoda \<Rightarrow> real \<Rightarrow> real list \<Rightarrow> real list \<Rightarrow> real \<Rightarrow> real
     \<Rightarrow> real list \<times> real list \<Rightarrow> error + (real list \<times> real list)" where
  "gravity_iterations 0 spline lsoda G pressures densities surface_gravity outer_radius st = Inr st"
| "gravity_iterations (Suc n) spline lsoda G pressures densities surface_gravity outer_radius st =
     (case gravity_pass spline lsoda G pressures densities surface_gravity outer_radius (snd st) of
        Inl e \<Rightarrow> Inl e
      | Inr st' \<Rightarrow>
          gravity_iterations n spline lsoda G pressures densities surface_gravity outer_radius st')"

definition compute_depth_gravity_profiles ::
  "spline_fit \<Rightarrow> lsoda \<Rightarrow> real \<Rightarrow> real list \<Rightarrow> real list \<Rightarrow> real \<Rightarrow> real
     \<Rightarrow> error + (real list \<times> real list)" where
  "compute_depth_gravity_profiles spline lsoda G pressures densities surface_gravity outer_radius =
     gravity_iterations n_gravity_iterations spline lsoda G pressures densities surface_gravity
       outer_radius ([], replicate (length pressures) surface_gravity)"

text \<open>
  \<open>surface_gravity_roundtrip\<close>: the surface gravity multiplied twice by the radius of the
  first sample and divided twice by it, in doubles, which is what the first gravity sample
  goes through. \<open>first_sample_ok\<close>: one depth and one gravity per pressure, depth 0 at the
  first, and the first gravity the surface gravity after this round trip.
  \<open>fits_succeed spline n\<close>: every fit of \<open>n\<close> samples succeeds.
\<close>

definition surface_gravity_roundtrip :: "real \<Rightarrow> real \<Rightarrow> real" where
  "surface_gravity_roundtrip surface_gravity r0 =
     fl (fl (fl (fl (surface_gravity * r0) * r0) / r0) / r0)"

definition first_sample_ok :: "real list \<Rightarrow> real \<Rightarrow> real \<Rightarrow> real list \<times> real list \<Rightarrow> bool" where
  "first_sample_ok pressures surface_gravity outer_radius st \<longleftrightarrow>
     length (fst st) = length pressures \<and> length (snd st) = length pressures \<and>
     fst st ! 0 = 0 \<and>
     snd st ! 0 = surface_gravity_roundtrip surface_gravity (fl outer_radius)"

definition fits_succeed :: "spline_fit \<Rightarrow> nat \<Rightarrow> bool" where
  "fits_succeed spline n \<longleftrightarrow>
     (\<forall>xs ys. length xs = n \<and> length ys = n \<longrightarrow> (\<exists>f. spline xs ys = Inr f))"

text \<open>
  Stand-ins for the two library kernels, for the examples only: a "spline" that interpolates
  linearly and, like \<open>UnivariateSpline\<close> of degree 3, needs at least four samples; and
  Euler steps between the output times for LSODA.
\<close>

definition spline_linear :: spline_fit where
  "spline_linear xs ys =
     (if length xs \<le> 3 \<or> length ys \<noteq> length xs then Inl FitError
      else Inr (\<lambda>x. np_interp1 x xs ys))"

fun lsoda_euler :: lsoda where
  "lsoda_euler func y0 t 0 = y0"
| "lsoda_euler func y0 t (Suc i) =
     (let y = lsoda_euler func y0 t i in y + (t ! Suc i - t ! i) * func y (t ! i))"

text \<open>
  The doubles nearest to 9.8 and to 6371008.8 (\<open>0x1.399999999999ap+3\<close> and
  \<open>0x1.84db033333333p+22\<close>).
\<close>

definition example_surface_gravity :: real where
  "example_surface_gravity = 5516909543528858 / 2 ^ 49"

definition example_outer_radius :: real where
  "example_outer_radius = 6840818609632051 / 2 ^ 30"

subsection \<open>numpy on lists\<close>

text \<open>
  \<open>np.linspace(start, stop, num)\<close>; \<open>np.meshgrid(x, y)\<close> followed by
  \<open>flatten\<close> (row-major: the pressure index runs fastest); \<open>reshape\<close> back to
  (rows, cols); \<open>np.gradient\<close> with unit spacing (one-sided differences at the two ends,
  central differences inside, \<open>ValueError\<close> on fewer than two samples); \<open>np.max\<close>
  (\<open>ValueError\<close> on an empty array); and the assignment \<open>a[idx] = vals\<close> through a list
  of indices.
\<close>

definition linspace :: "real \<Rightarrow> real \<Rightarrow> nat \<Rightarrow> real list" where
  "linspace start stop num =
     (if num = 1 then [start]
      else map (\<lambda>i. start + real i * ((stop - start) / real (num - 1))) [0..<num])"

definition meshgrid_x :: "real list \<Rightarrow> real list \<Rightarrow> real list" where
  "meshgrid_x xs ys = concat (map (\<lambda>y. xs) ys)"

definition meshgrid_y :: "real list \<Rightarrow> real list \<Rightarrow> real list" where
  "meshgrid_y xs ys = concat (map (\<lambda>y. map (\<lambda>x. y) xs) ys)"

definition reshape :: "nat \<Rightarrow> nat \<Rightarrow> real list \<Rightarrow> real list list" where
  "reshape rows cols a = map (\<lambda>j. take cols (drop (j * cols) a)) [0..<rows]"

definition np_gradient :: "real list \<Rightarrow> error + real list" where
  "np_gradient f =
     (let n = length f
      in if n < 2 then Inl ValueError
         else Inr (map (\<lambda>i. if i = 0 then f ! 1 - f ! 0
                             else if i = n - 1 then f ! (n - 1) - f ! (n - 2)
                             else (f ! (i + 1) - f ! (i - 1)) / 2) [0..<n]))"

definition np_max :: "real list \<Rightarrow> error + real" where
  "np_max a = (case a of [] \<Rightarrow> Inl ValueError | x # xs \<Rightarrow> Inr (fold max xs x))"

definition assign_at :: "real list \<Rightarrow> nat list \<Rightarrow> real list \<Rightarrow> real list" where
  "assign_at a idx vals = fold (\<lambda>(i, v) b. b[i := v]) (zip idx vals) a"

text \<open>
  Modelled from the spec: \<open>rock.evaluate(names, pressures, temperatures)\<close> of the evaluator
  class, which is not in the notebook: one array per property name, holding the property at
  each (pressure, temperature) pair; the evaluator may reject a point. The spec says nothing
  about the point last set, which the model leaves as it is.
\<close>

definition evaluate ::
  "property list \<Rightarrow> real list \<Rightarrow> real list \<Rightarrow> rock \<Rightarrow> error + real list list" where
  "evaluate names pressures temperatures r =
     (if length pressures \<noteq> length temperatures then Inl ValueError
      else if list_ex (\<lambda>(P, T). \<not> accepts r P T) (zip pressures temperatures)
      then Inl PropertySourceError
      else Inr (map (\<lambda>q. map2 (table r q) pressures temperatures) names))"

subsection \<open>The relaxation grid of \<open>relaxed_profile\<close>\<close>

text \<open>
  The temperature smoothing width, as \<open>relaxed_profile\<close> computes it: the gradient is
  taken (and may raise) before \<open>grid_pressures[1]\<close> is read.
\<close>

definition temperature_stdev_of ::
  "real \<Rightarrow> real \<Rightarrow> real \<Rightarrow> real list \<Rightarrow> real list \<Rightarrow> error + real" where
  "temperature_stdev_of max_temperature_stdev temperature_smoothing_factor pressure_stdev
       unsmoothed_grid_isentrope_temperatures grid_pressures =
     (case np_gradient unsmoothed_grid_isentrope_temperatures of
        Inl e \<Rightarrow> Inl e
      | Inr grad \<Rightarrow>
          (case np_max (map abs grad) of
             Inl e \<Rightarrow> Inl e
           | Inr m \<Rightarrow>
               if length grid_pressures < 2 then Inl IndexError
               else Inr (min max_temperature_stdev
                          (temperature_smoothing_factor * pressure_stdev * m
                             / (grid_pressures ! 1 - grid_pressures ! 0)))))"

text \<open>
  The part of \<open>relaxed_profile\<close> that builds the grid, from \<open>grid_pressures\<close> to the
  reshaping of \<open>grid_entropies\<close> and \<open>grid_volumes\<close>, given the spline through the
  unsmoothed isentrope. \<open>evaluated\<close> records the points passed to the one call of
  \<open>rock.evaluate\<close>; \<open>truncate'\<close> is the argument \<open>truncate\<close>.
\<close>

record smoothing_grid =
  grid_pressures :: "real list"
  grid_temperatures :: "real list"
  temperature_stdev :: real
  Tdiff_max :: real
  mask :: "nat list"
  evaluated :: "(real \<times> real) list"
  grid_entropies :: "real list list"
  grid_volumes :: "real list list"

definition window_grid ::
  "rock \<Rightarrow> (real \<Rightarrow> real) \<Rightarrow> nat \<times> nat \<Rightarrow> real \<Rightarrow> real \<Rightarrow> real \<Rightarrow> real
     \<Rightarrow> error + smoothing_grid" where
  "window_grid r isentrope_spline n_gridpoints pressure_stdev temperature_smoothing_factor
       max_temperature_stdev truncate' =
     (let gp = linspace (fst (fst (bounds r))) (snd (fst (bounds r))) (fst n_gridpoints);
          gt = linspace (fst (snd (bounds r))) (snd (snd (bounds r))) (snd n_gridpoints);
          unsmoothed_grid_isentrope_temperatures = map isentrope_spline gp;
          pp = meshgrid_x gp gt;
          TT = meshgrid_y gp gt;
          zeros = replicate (length pp) 0;
          Tdiff = map2 (\<lambda>P T. \<bar>isentrope_spline P - T\<bar>) pp TT
      in (case temperature_stdev_of max_temperature_stdev temperature_smoothing_factor
                 pressure_stdev unsmoothed_grid_isentrope_temperatures gp of
            Inl e \<Rightarrow> Inl e
          | Inr tstdev \<Rightarrow>
              (let Tmax = 50 + 30 + truncate' * tstdev;
                   msk = map fst (filter (\<lambda>(idx, Td). Td < Tmax) (enumerate 0 Tdiff));
                   ppm = map (\<lambda>idx. pp ! idx) msk;
                   TTm = map (\<lambda>idx. TT ! idx) msk
               in (case evaluate [Prop_S, Prop_V] ppm TTm r of
                     Inl e \<Rightarrow> Inl e
                   | Inr vals \<Rightarrow>
                       Inr \<lparr>grid_pressures = gp, grid_temperatures = gt,
                            temperature_stdev = tstdev, Tdiff_max = Tmax, mask = msk,
                            evaluated = zip ppm TTm,
                            grid_entropies =
                              reshape (length gt) (length gp) (assign_at zeros msk (vals ! 0)),
                            grid_volumes =
                              reshape (length gt) (length gp) (assign_at zeros msk (vals ! 1))\<rparr>))))"



subsection \<open>The output table of \<open>update_plot\<close>\<close>

text \<open>
  The tuple returned by \<open>relaxed_profile\<close>, one list per quantity along the profile.
\<close>

record profile =
  rp_smoothed_temperatures :: "real list"
  rp_depths :: "real list"
  rp_gravity :: "real list"
  rp_densities :: "real list"
  rp_alphas_relaxed :: "real list"
  rp_compressibilities_relaxed :: "real list"
  rp_specific_heats_relaxed :: "real list"
  rp_Vss :: "real list"
  rp_Vps :: "real list"
  rp_dVsdT :: "real list"
  rp_dVpdT :: "real list"

text \<open>
  The ten \<open>np.interp\<close> calls of \<open>update_plot\<close>, in their order: each column is resampled
  at \<open>pressures_eq\<close>.
\<close>

fun interp_columns :: "real list \<Rightarrow> real list \<Rightarrow> real list list \<Rightarrow> error + real list list" where
  "interp_columns xs xp [] = Inr []"
| "interp_columns xs xp (fp # fps) =
     (case np_interp xs xp fp of
        Inl e \<Rightarrow> Inl e
      | Inr col \<Rightarrow>
          (case interp_columns xs xp fps of
             Inl e \<Rightarrow> Inl e
           | Inr cols \<Rightarrow> Inr (col # cols)))"

text \<open>
  The resampling of \<open>update_plot\<close> ("convert to equal slices in depth") and the array
  passed to \<open>np.savetxt\<close>: the twelve columns, transposed into one row per depth. The
  spline from depth to pressure is fitted before \<open>depths[0]\<close> is read.
\<close>

definition update_plot_table ::
  "spline_fit \<Rightarrow> real list \<Rightarrow> nat \<Rightarrow> profile \<Rightarrow> error + real list list" where
  "update_plot_table spline pressures n_points prof =
     (case spline (rp_depths prof) pressures of
        Inl e \<Rightarrow> Inl e
      | Inr p_spline \<Rightarrow>
          (case rp_depths prof of
             [] \<Rightarrow> Inl IndexError
           | d0 # ds \<Rightarrow>
               (let depths_eq = linspace d0 (last (d0 # ds)) n_points;
                    pressures_eq = map p_spline depths_eq
                in (case interp_columns pressures_eq pressures
                          [rp_smoothed_temperatures prof, rp_densities prof, rp_gravity prof,
                           rp_alphas_relaxed prof, rp_specific_heats_relaxed prof,
                           rp_compressibilities_relaxed prof, rp_Vss prof, rp_Vps prof,
                           rp_dVsdT prof, rp_dVpdT prof] of
                      Inl e \<Rightarrow> Inl e
                    | Inr cols \<Rightarrow>
                        Inr (map (\<lambda>i. map (\<lambda>col. col ! i) (depths_eq # pressures_eq # cols))
                               [0..<n_points])))))"

text \<open>
  The row of the table at a depth \<open>d\<close>: depth, pressure, temperature, density, gravity,
  thermal expansivity, specific heat, compressibility, shear-wave velocity, P-wave velocity,
  dVs/dT, dVp/dT.
\<close>

definition table_row :: "(real \<Rightarrow> real) \<Rightarrow> real list \<Rightarrow> profile \<Rightarrow> real \<Rightarrow> real list" where
  "table_row p_spline pressures prof d =
     (let P = p_spline d
      in [d, P,
          np_interp1 P pressures (rp_smoothed_temperatures prof),
          np_interp1 P pressures (rp_densities prof),
          np_interp1 P pressures (rp_gravity prof),
          np_interp1 P pressures (rp_alphas_relaxed prof),
          np_interp1 P pressures (rp_specific_heats_relaxed prof),
          np_interp1 P pressures (rp_compressibilities_relaxed prof),
          np_interp1 P pressures (rp_Vss prof),
          np_interp1 P pressures (rp_Vps prof),
          np_interp1 P pressures (rp_dVsdT prof),
          np_interp1 P pressures (rp_dVpdT prof)])"

subsection \<open>\<open>np.savetxt\<close> with the format \<open>%.10e\<close>\<close>

definition newline :: char where
  "newline = CHR 0x0A"

definition tab :: char where
  "tab = CHR 0x09"

definition digit_char :: "nat \<Rightarrow> char" where
  "digit_char d = ''0123456789'' ! d"

fun str_nat :: "nat \<Rightarrow> string" where
  "str_nat n = (if n < 10 then [digit_char n] else str_nat (n div 10) @ [digit_char (n mod 10)])"

declare str_nat.simps [simp del]

fun digits_fixed :: "nat \<Rightarrow> nat \<Rightarrow> string" where
  "digits_fixed 0 m = []"
| "digits_fixed (Suc k) m = digits_fixed k (m div 10) @ [digit_char (m mod 10)]"

text \<open>
  The conversion \<open>%.10e\<close> of C's \<open>printf\<close>, on reals: the value is scaled by the power
  of ten that leaves one digit before the decimal point, rounded to ten decimals (ties to
  even), and printed as sign, digit, point, ten digits, \<open>e\<close>, the sign of the exponent and
  at least two exponent digits. \<open>e10_parts\<close> gives the eleven-digit mantissa and the
  exponent.
\<close>

definition decimal_exponent :: "real \<Rightarrow> int" where
  "decimal_exponent x = (if x = 0 then 0 else \<lfloor>log 10 \<bar>x\<bar>\<rfloor>)"

definition e10_parts :: "real \<Rightarrow> nat \<times> int" where
  "e10_parts x =
     (let e = decimal_exponent x;
          m = nat (round_half_even (\<bar>x\<bar> / 10 powi e * 10 ^ 10))
      in if m \<ge> 10 ^ 11 then (m div 10, e + 1) else (m, e))"

definition fmt_e10 :: "real \<Rightarrow> string" where
  "fmt_e10 x =
     (let (m, e) = e10_parts x
      in (if x < 0 then ''-'' else '''') @ [digit_char (m div 10 ^ 10)] @ ''.''
         @ digits_fixed 10 (m mod 10 ^ 10) @ ''e'' @ (if e < 0 then ''-'' else ''+'')
         @ (if \<bar>e\<bar> < 10 then ''0'' else '''') @ str_nat (nat \<bar>e\<bar>))"

text \<open>
  \<open>np.savetxt\<close> with a tab as delimiter and an empty comment prefix: the header, a
  newline, and one line per row, the formatted values joined by tabs.
\<close>

fun join :: "string \<Rightarrow> string list \<Rightarrow> string" where
  "join sep [] = []"
| "join sep [x] = x"
| "join sep (x # y # ys) = x @ sep @ join sep (y # ys)"

definition format_row :: "real list \<Rightarrow> string" where
  "format_row row = join [tab] (map fmt_e10 row)"

definition savetxt :: "string \<Rightarrow> real list list \<Rightarrow> string" where
  "savetxt header X = header @ [newline] @ concat (map (\<lambda>row. format_row row @ [newline]) X)"

definition outfile_header :: "nat \<Rightarrow> string" where
  "outfile_header n_points =
     ''# This ASPECT-compatible file contains material properties calculated along an isentrope by the BurnMan software.''
     @ [newline] @ ''# POINTS: '' @ str_nat n_points @ '' '' @ [newline]
     @ ''# depth (m), pressure (Pa), temperature (K), density (kg/m^3), gravity (m/s^2), thermal expansivity (1/K), specific heat (J/K/kg), compressibility (1/Pa), seismic Vs (m/s), seismic Vp (m/s), seismic dVs/dT (m/s/K), seismic dVp/dT (m/s/K)''
     @ [newline]
     @ ''depth                   pressure                temperature             density                 gravity                 thermal_expansivity     specific_heat           compressibility ''
     @ [tab]
     @ ''seismic_Vs              seismic_Vp              seismic_dVs_dT          seismic_dVp_dT''"

definition update_plot_file ::
  "spline_fit \<Rightarrow> real list \<Rightarrow> nat \<Rightarrow> profile \<Rightarrow> error + string" where
  "update_plot_file spline pressures n_points prof =
     (case update_plot_table spline pressures n_points prof of
        Inl e \<Rightarrow> Inl e
      | Inr X \<Rightarrow> Inr (savetxt (outfile_header n_points) X))"

text \<open>
  The shape of a formatted value, and the number of digits of its mantissa (its significant
  digits).
\<close>

definition is_digit :: "char \<Rightarrow> bool" where
  "is_digit c \<longleftrightarrow> c \<in> set ''0123456789''"

definition significant_digits :: "string \<Rightarrow> nat" where
  "significant_digits s =
     length (filter is_digit (takeWhile (\<lambda>c. c \<noteq> CHR ''e'') s))"

definition e10_format :: "string \<Rightarrow> bool" where
  "e10_format s \<longleftrightarrow>
     (\<exists>sign d frac esign edigits.
        s = sign @ [d] @ ''.'' @ frac @ ''e'' @ [esign] @ edigits \<and>
        (sign = [] \<or> sign = ''-'') \<and> is_digit d \<and>
        length frac = 10 \<and> list_all is_digit frac \<and>
        (esign = CHR ''+'' \<or> esign = CHR ''-'') \<and>
        2 \<le> length edigits \<and> list_all is_digit edigits)"

text \<open>A short profile for the examples.\<close>

definition example_profile :: profile where
  "example_profile =
     \<lparr>rp_smoothed_temperatures = [1550, 1560, 1570, 1580],
      rp_depths = [0, 3000, 6000, 9000],
      rp_gravity = [981 / 100, 981 / 100, 982 / 100, 982 / 100],
      rp_densities = [3300, 3310, 3320, 3330],
      rp_alphas_relaxed = [3 / 10 ^ 5, 3 / 10 ^ 5, 3 / 10 ^ 5, 3 / 10 ^ 5],
      rp_compressibilities_relaxed = [1 / 10 ^ 11, 1 / 10 ^ 11, 1 / 10 ^ 11, 1 / 10 ^ 11],
      rp_specific_heats_relaxed = [1200, 1200, 1200, 1200],
      rp_Vss = [4500, 4510, 4520, 4530],
      rp_Vps = [8000, 8010, 8020, 8030],
      rp_dVsdT = [- 1 / 3, - 1 / 3, - 1 / 3, - 1 / 3],
      rp_dVpdT = [- 1 / 2, - 1 / 2, - 1 / 2, - 1 / 2]\<rparr>"

subsection \<open>The smoothed fields and \<open>relaxed_profile\<close>\<close>

text \<open>
  Modelled from the spec: \<open>burnman.tools.interp_smoothed_array_and_derivatives\<close> is not in
  the notebook. The spec gives its contract, and the notebook its call: from a 2-D array of
  grid samples, the grid's pressure and temperature values, the two smoothing widths and the
  truncation radius it produces a smoothed field and its two partial derivatives, each
  queryable at an arbitrary (pressure, temperature), or it rejects the configuration. It is
  a parameter of the model; all it can see of the evaluator is the array of grid samples.
\<close>

type_synonym smoothed_field = "real \<Rightarrow> real \<Rightarrow> real"

type_synonym smoother =
  "real list list \<Rightarrow> real list \<Rightarrow> real list \<Rightarrow> real \<Rightarrow> real \<Rightarrow> real
     \<Rightarrow> error + (smoothed_field \<times> smoothed_field \<times> smoothed_field)"

text \<open>
  The library routines \<open>relaxed_profile\<close> calls: \<open>UnivariateSpline\<close>, the integrator
  behind \<open>odeint\<close>, the solver behind \<open>fsolve\<close>, the smoother, and the gravitational
  constant \<open>burnman.constants.G\<close>.
\<close>

record library =
  lib_spline :: spline_fit
  lib_lsoda :: lsoda
  lib_hybrd :: hybrd
  lib_smoother :: smoother
  lib_G :: real

text \<open>
  The first lines of \<open>relaxed_profile\<close>: the evaluator is set to
  \<open>(1.e5, potential_temperature)\<close>, its entropy there is the target, the profile pressures
  are \<open>np.linspace(1.e5, max_pressure, n_points)\<close>, the unsmoothed isentrope is solved by
  \<open>isentrope\<close> and fitted by a spline.
\<close>

definition reference_isentrope ::
  "spline_fit \<Rightarrow> rock \<Rightarrow> real \<Rightarrow> real \<Rightarrow> nat
     \<Rightarrow> (error + (real \<times> real list \<times> real list \<times> (real \<Rightarrow> real))) \<times> rock" where
  "reference_isentrope spline r potential_temperature max_pressure n_points =
     (case set_state 100000 potential_temperature r of
        Inl e \<Rightarrow> (Inl e, r)
      | Inr r1 \<Rightarrow>
          (case read_property Prop_S r1 of
             Inl e \<Rightarrow> (Inl e, r1)
           | Inr entropy \<Rightarrow>
               (let pressures = linspace 100000 max_pressure n_points
                in (case isentrope r1 pressures entropy potential_temperature of
                      (Inl e, r2) \<Rightarrow> (Inl e, r2)
                    | (Inr temperatures, r2) \<Rightarrow>
                        (case spline pressures temperatures of
                           Inl e \<Rightarrow> (Inl e, r2)
                         | Inr isentrope_spline \<Rightarrow>
                             (Inr (entropy, pressures, temperatures, isentrope_spline), r2))))))"

text \<open>
  The two calls of the smoother, on the entropy grid and on the volume grid, with the
  pressure width of the caller and the temperature width computed for the grid.
\<close>

definition smoothed_fields ::
  "smoother \<Rightarrow> smoothing_grid \<Rightarrow> real \<Rightarrow> real
     \<Rightarrow> error + ((smoothed_field \<times> smoothed_field \<times> smoothed_field)
                 \<times> (smoothed_field \<times> smoothed_field \<times> smoothed_field))" where
  "smoothed_fields smooth g pressure_stdev truncate' =
     (case smooth (grid_entropies g) (grid_pressures g) (grid_temperatures g) pressure_stdev
             (temperature_stdev g) truncate' of
        Inl e \<Rightarrow> Inl e
      | Inr S_interps \<Rightarrow>
          (case smooth (grid_volumes g) (grid_pressures g) (grid_temperatures g) pressure_stdev
                  (temperature_stdev g) truncate' of
             Inl e \<Rightarrow> Inl e
           | Inr V_interps \<Rightarrow> Inr (S_interps, V_interps)))"

text \<open>
  The last part of \<open>relaxed_profile\<close>, from the smoothed temperatures on: densities from
  the evaluator, depth and gravity, the relaxed expansivity, compressibility and specific
  heat from the smoothed fields, and the seismic velocities and their temperature
  derivatives by a symmetric difference of width \<open>dT = 0.1\<close>.
\<close>

definition assemble_profile ::
  "library \<Rightarrow> rock \<Rightarrow> real \<Rightarrow> real \<Rightarrow> real list \<Rightarrow> real list
     \<Rightarrow> (smoothed_field \<times> smoothed_field \<times> smoothed_field)
     \<Rightarrow> (smoothed_field \<times> smoothed_field \<times> smoothed_field) \<Rightarrow> error + profile" where
  "assemble_profile lib r surface_gravity outer_radius pressures smoothed_temperatures
       S_interps V_interps =
     (case evaluate [Prop_rho] pressures smoothed_temperatures r of
        Inl e \<Rightarrow> Inl e
      | Inr rho \<Rightarrow>
          (let densities = rho ! 0
           in (case compute_depth_gravity_profiles (lib_spline lib) (lib_lsoda lib) (lib_G lib)
                    pressures densities surface_gravity outer_radius of
                 Inl e \<Rightarrow> Inl e
               | Inr (depths, gravity) \<Rightarrow>
                   (let (interp_smoothed_S, interp_smoothed_dSdP, interp_smoothed_dSdT) = S_interps;
                        (interp_smoothed_V, interp_smoothed_dVdP, interp_smoothed_dVdT) = V_interps;
                        volumes = map2 interp_smoothed_V pressures smoothed_temperatures;
                        dSdT = map2 interp_smoothed_dSdT pressures smoothed_temperatures;
                        dVdT = map2 interp_smoothed_dVdT pressures smoothed_temperatures;
                        dVdP = map2 interp_smoothed_dVdP pressures smoothed_temperatures;
                        alphas_relaxed = map2 (\<lambda>a v. a / v) dVdT volumes;
                        compressibilities_relaxed = map2 (\<lambda>b v. - b / v) dVdP volumes;
                        specific_heats_relaxed =
                          map2 (\<lambda>T s. T * s / molar_mass r) smoothed_temperatures dSdT;
                        dT = 1 / 10
                    in (case evaluate [Prop_p_wave_velocity, Prop_shear_wave_velocity] pressures
                               (map (\<lambda>T. T - dT / 2) smoothed_temperatures) r of
                          Inl e \<Rightarrow> Inl e
                        | Inr sub \<Rightarrow>
                            (case evaluate [Prop_p_wave_velocity, Prop_shear_wave_velocity]
                                    pressures (map (\<lambda>T. T + dT / 2) smoothed_temperatures) r of
                               Inl e \<Rightarrow> Inl e
                             | Inr add \<Rightarrow>
                                 Inr \<lparr>rp_smoothed_temperatures = smoothed_temperatures,
                                      rp_depths = depths, rp_gravity = gravity,
                                      rp_densities = densities,
                                      rp_alphas_relaxed = alphas_relaxed,
                                      rp_compressibilities_relaxed = compressibilities_relaxed,
                                      rp_specific_heats_relaxed = specific_heats_relaxed,
                                      rp_Vss = map2 (\<lambda>a s. (a + s) / 2) (add ! 1) (sub ! 1),
                                      rp_Vps = map2 (\<lambda>a s. (a + s) / 2) (add ! 0) (sub ! 0),
                                      rp_dVsdT = map2 (\<lambda>a s. (a - s) / dT) (add ! 1) (sub ! 1),
                                      rp_dVpdT = map2 (\<lambda>a s. (a - s) / dT) (add ! 0) (sub ! 0)\<rparr>))))))"

text \<open>
  \<open>relaxed_profile\<close>. The arguments \<open>min_grid_temperature\<close> and \<open>max_grid_temperature\<close>
  are overwritten by the evaluator's bounds before they are read, as in the source. The
  smoothed temperatures are solved by \<open>interp_isentrope\<close> on the smoothed entropy field,
  the first component of \<open>S_interps\<close>. The evaluator is returned as the reference isentrope
  left it.
\<close>

definition relaxed_profile ::
  "library \<Rightarrow> rock \<Rightarrow> real \<Rightarrow> real \<Rightarrow> real \<Rightarrow> real \<Rightarrow> nat \<Rightarrow> nat \<times> nat \<Rightarrow> real \<Rightarrow> real
     \<Rightarrow> real \<Rightarrow> real \<Rightarrow> real \<Rightarrow> real \<Rightarrow> (error + profile) \<times> rock" where
  "relaxed_profile lib r potential_temperature max_pressure surface_gravity outer_radius
       n_points n_gridpoints pressure_stdev temperature_smoothing_factor
       max_temperature_stdev truncate' min_grid_temperature max_grid_temperature =
     (case reference_isentrope (lib_spline lib) r potential_temperature max_pressure n_points of
        (Inl e, r1) \<Rightarrow> (Inl e, r1)
      | (Inr (entropy, pressures, temperatures, isentrope_spline), r1) \<Rightarrow>
          (case window_grid r1 isentrope_spline n_gridpoints pressure_stdev
                  temperature_smoothing_factor max_temperature_stdev truncate' of
             Inl e \<Rightarrow> (Inl e, r1)
           | Inr g \<Rightarrow>
               (case smoothed_fields (lib_smoother lib) g pressure_stdev truncate' of
                  Inl e \<Rightarrow> (Inl e, r1)
                | Inr (S_interps, V_interps) \<Rightarrow>
                    (case interp_isentrope (lib_hybrd lib) (fst S_interps) pressures entropy
                            potential_temperature of
                       Inl e \<Rightarrow> (Inl e, r1)
                     | Inr smoothed_temperatures \<Rightarrow>
                         (assemble_profile lib r1 surface_gravity outer_radius pressures
                            smoothed_temperatures S_interps V_interps, r1)))))"

text \<open>
  Smoothing at zero width is the identity: the run with \<open>pressure_stdev = 0\<close> returns, and
  each smoothed temperature is within the bracketed root finder's tolerance
  \<open>xtol + rtol * |T|\<close> of the unsmoothed isentrope temperature at the same profile pressure.
\<close>

definition zero_width_identity ::
  "library \<Rightarrow> rock \<Rightarrow> real \<Rightarrow> real \<Rightarrow> real \<Rightarrow> real \<Rightarrow> nat \<Rightarrow> nat \<times> nat \<Rightarrow> real \<Rightarrow> real
     \<Rightarrow> real \<Rightarrow> bool" where
  "zero_width_identity lib r potential_temperature max_pressure surface_gravity outer_radius
       n_points n_gridpoints temperature_smoothing_factor max_temperature_stdev truncate' \<longleftrightarrow>
     (\<exists>prof r' entropy pressures temperatures isentrope_spline r1.
        relaxed_profile lib r potential_temperature max_pressure surface_gravity outer_radius
          n_points n_gridpoints 0 temperature_smoothing_factor max_temperature_stdev truncate'
          0 0 = (Inr prof, r') \<and>
        reference_isentrope (lib_spline lib) r potential_temperature max_pressure n_points
          = (Inr (entropy, pressures, temperatures, isentrope_spline), r1) \<and>
        list_all2 (\<lambda>Ts T. \<bar>Ts - T\<bar> < brentq_xtol + brentq_rtol * \<bar>T\<bar>)
          (rp_smoothed_temperatures prof) temperatures)"

text \<open>
  Two evaluators over the same bounds. The entropy (and every other property) of the first
  is the temperature; that of the second is bowed upwards between the two ends of the
  pressure range, by 2 at the pressures 100100000 and 200100000, and equals the first at
  the two ends.
\<close>

definition rock_plain :: rock where
  "rock_plain =
     \<lparr>table = (\<lambda>q P T. T), bounds = ((100000, 300100000), (1000, 2000)), molar_mass = 1,
      accepts = (\<lambda>P T. True), state = None\<rparr>"

definition rock_bowed :: rock where
  "rock_bowed =
     \<lparr>table = (\<lambda>q P T. T + (P - 100000) * (300100000 - P) / 10 ^ 16),
      bounds = ((100000, 300100000), (1000, 2000)), molar_mass = 1,
      accepts = (\<lambda>P T. True), state = None\<rparr>"

text \<open>
  The four profile pressures \<open>np.linspace(1.e5, 300100000, 4)\<close>, and the relaxation grid
  of two pressures and five temperatures that both evaluators produce around the potential
  temperature 1550: only the two nodes at 1500 K are inside the window of 80 K.
\<close>

definition example_pressures :: "real list" where
  "example_pressures = [100000, 100100000, 200100000, 300100000]"

definition example_window :: smoothing_grid where
  "example_window =
     \<lparr>grid_pressures = [100000, 300100000],
      grid_temperatures = [1000, 1250, 1500, 1750, 2000],
      temperature_stdev = 0, Tdiff_max = 80, mask = [4, 5],
      evaluated = [(100000, 1500), (300100000, 1500)],
      grid_entropies = [[0, 0], [0, 0], [1500, 1500], [0, 0], [0, 0]],
      grid_volumes = [[0, 0], [0, 0], [1500, 1500], [0, 0], [0, 0]]\<rparr>"

text \<open>
  An example smoother, used only to run \<open>relaxed_profile\<close> on a concrete input: the field
  is the sample of the grid node at or below the query point, its derivatives are zero.
\<close>

definition smoother_steps :: smoother where
  "smoother_steps array x_values y_values x_stdev y_stdev truncate' =
     Inr ((\<lambda>x y. array ! length (takeWhile (\<lambda>v. v \<le> y) (tl y_values))
                       ! length (takeWhile (\<lambda>v. v \<le> x) (tl x_values))),
          (\<lambda>x y. 0), (\<lambda>x y. 0))"

definition example_library :: library where
  "example_library =
     \<lparr>lib_spline = spline_linear, lib_lsoda = lsoda_euler, lib_hybrd = hybrd_newton,
      lib_smoother = smoother_steps, lib_G = 667 / 10 ^ 13\<rparr>"

section \<open>Properties\<close>

subsection \<open>What the root finder does to the state behind its callback\<close>

lemma brentq_loop_inv:
  assumes "\<And>x s. I s \<Longrightarrow> I (snd (f x s))"
  shows "I s \<Longrightarrow> I (snd (brentq_loop f n v s))"
proof (induction n arbitrary: v s)
  case 0
  then show ?case by simp
next
  case (Suc n)
  let ?v1 = "brent_swap (brent_rebracket v)"
  let ?v2 = "brent_advance (brent_choose ?v1)"
  show ?case
  proof (cases "fcur ?v1 = 0 \<or> \<bar>brent_sbis ?v1\<bar> < brent_delta ?v1")
    case True
    then show ?thesis using Suc.prems by (simp add: Let_def)
  next
    case False
    obtain res s' where fx: "f (xcur ?v2) s = (res, s')" by (cases "f (xcur ?v2) s")
    have Is': "I s'" using assms [OF Suc.prems, of "xcur ?v2"] fx by simp
    show ?thesis
    proof (cases res)
      case (Inl e)
      then show ?thesis using False fx Is' by (simp add: Let_def)
    next
      case (Inr y)
      then show ?thesis using False fx Suc.IH [OF Is'] by (simp add: Let_def)
    qed
  qed
qed

lemma brentq_inv:
  assumes "\<And>x s. I s \<Longrightarrow> I (snd (f x s))" and "I s"
  shows "I (snd (brentq f a b s))"
proof -
  obtain ra s1 where fa: "f a s = (ra, s1)" by (cases "f a s")
  have I1: "I s1" using assms(1) [OF assms(2), of a] fa by simp
  obtain rb s2 where fb: "f b s1 = (rb, s2)" by (cases "f b s1")
  have I2: "I s2" using assms(1) [OF I1, of b] fb by simp
  show ?thesis
    using fa fb I1 I2 brentq_loop_inv [of I f s2, OF assms(1) I2]
    by (cases ra; cases rb) (simp_all add: brentq_def)
qed

lemma brentq_loop_rel:
  assumes "\<And>x s1 s2. R s1 s2 \<Longrightarrow> fst (f x s1) = fst (f x s2) \<and> R (snd (f x s1)) (snd (f x s2))"
  shows "R s1 s2 \<Longrightarrow> fst (brentq_loop f n v s1) = fst (brentq_loop f n v s2)
            \<and> R (snd (brentq_loop f n v s1)) (snd (brentq_loop f n v s2))"
proof (induction n arbitrary: v s1 s2)
  case 0
  then show ?case by simp
next
  case (Suc n)
  let ?v1 = "brent_swap (brent_rebracket v)"
  let ?v2 = "brent_advance (brent_choose ?v1)"
  show ?case
  proof (cases "fcur ?v1 = 0 \<or> \<bar>brent_sbis ?v1\<bar> < brent_delta ?v1")
    case True
    then show ?thesis using Suc.prems by (simp add: Let_def)
  next
    case False
    obtain res t1 where f1: "f (xcur ?v2) s1 = (res, t1)" by (cases "f (xcur ?v2) s1")
    obtain res' t2 where f2: "f (xcur ?v2) s2 = (res', t2)" by (cases "f (xcur ?v2) s2")
    have eq: "res' = res" and R': "R t1 t2"
      using assms [OF Suc.prems, of "xcur ?v2"] f1 f2 by simp_all
    show ?thesis
    proof (cases res)
      case (Inl e)
      then show ?thesis using False f1 f2 eq R' by (simp add: Let_def)
    next
      case (Inr y)
      then show ?thesis using False f1 f2 eq Suc.IH [OF R'] by (simp add: Let_def)
    qed
  qed
qed

lemma brentq_rel:
  assumes "\<And>x s1 s2. R s1 s2 \<Longrightarrow> fst (f x s1) = fst (f x s2) \<and> R (snd (f x s1)) (snd (f x s2))"
    and "R s1 s2"
  shows "fst (brentq f a b s1) = fst (brentq f a b s2)
            \<and> R (snd (brentq f a b s1)) (snd (brentq f a b s2))"
proof -
  obtain ra t1 where fa1: "f a s1 = (ra, t1)" by (cases "f a s1")
  obtain ra' t2 where fa2: "f a s2 = (ra', t2)" by (cases "f a s2")
  have eqa: "ra' = ra" and Ra: "R t1 t2" using assms(1) [OF assms(2), of a] fa1 fa2 by simp_all
  obtain rb u1 where fb1: "f b t1 = (rb, u1)" by (cases "f b t1")
  obtain rb' u2 where fb2: "f b t2 = (rb', u2)" by (cases "f b t2")
  have eqb: "rb' = rb" and Rb: "R u1 u2" using assms(1) [OF Ra, of b] fb1 fb2 by simp_all
  show ?thesis
    using fa1 fa2 fb1 fb2 eqa eqb Ra Rb brentq_loop_rel [of R f u1 u2, OF assms(1) Rb]
    by (cases ra; cases rb) (simp_all add: brentq_def)
qed

subsection \<open>The initial guess of the isentrope solver\<close>

lemma isentrope_loop_guess: "isentrope_loop r ps S0 g1 = isentrope_loop r ps S0 g2"
  by (induction ps arbitrary: r g1 g2) (auto split: prod.splits sum.splits)

text \<open>
  Claim C9. The argument \<open>T_guess\<close> of \<open>isentrope\<close> has no effect: for a fixed
  evaluator, pressure sequence and target entropy, any two guesses give the same
  temperatures (and the same error, and leave the evaluator in the same state). The bracketed
  solve starts from the evaluator's temperature bounds and never reads the guess.
\<close>

theorem isentrope_ignores_T_guess:
  "isentrope r pressures entropy T_guess = isentrope r pressures entropy T_guess'"
  unfolding isentrope_def by (rule isentrope_loop_guess)

subsection \<open>The bracket kept by the root finder\<close>

lemma brent_rebracket_swap:
  assumes "brent_inv g v"
  shows "brent_bracketed g (brent_swap (brent_rebracket v))"
proof -
  have 1: "brent_bracketed g (brent_rebracket v)"
    using assms by (auto simp: brent_inv_def brent_bracketed_def brent_rebracket_def)
  have 2: "brent_bracketed g w \<Longrightarrow> brent_bracketed g (brent_swap w)" for w
    by (auto simp: brent_bracketed_def brent_swap_def mult.commute)
  show ?thesis by (rule 2 [OF 1])
qed

lemma brent_step_fields:
  "xblk (brent_advance (brent_choose v)) = xblk v"
  "fblk (brent_advance (brent_choose v)) = fblk v"
  "xpre (brent_advance (brent_choose v)) = xcur v"
  "fpre (brent_advance (brent_choose v)) = fcur v"
  by (simp_all add: brent_advance_def brent_choose_def Let_def split: option.splits)

lemma sign_carry:
  fixes p c b :: real
  assumes "b * p \<le> 0" and "p \<noteq> 0"
  shows "p * c < 0 \<or> b * c \<le> 0"
proof (cases "p * c < 0")
  case True
  then show ?thesis by simp
next
  case False
  then have pc: "0 \<le> p * c" by simp
  show ?thesis
  proof (cases "p > 0")
    case True
    then have "b \<le> 0" using assms(1) by (simp add: mult_le_0_iff)
    moreover have "0 \<le> c" using pc True by (simp add: zero_le_mult_iff)
    ultimately show ?thesis by (simp add: mult_le_0_iff)
  next
    case False
    then have neg: "p < 0" using assms(2) by simp
    then have "0 \<le> b" using assms(1) by (simp add: mult_le_0_iff)
    moreover have "c \<le> 0" using pc neg by (simp add: zero_le_mult_iff)
    ultimately show ?thesis by (simp add: mult_le_0_iff)
  qed
qed

lemma brent_step_inv:
  assumes "brent_bracketed g v" and "fcur v \<noteq> 0"
  shows "brent_inv g ((brent_advance (brent_choose v))\<lparr>fcur := g (xcur (brent_advance (brent_choose v)))\<rparr>)"
proof -
  let ?w = "brent_advance (brent_choose v)"
  have b: "fcur v = g (xcur v)" "fblk v = g (xblk v)" "fblk v * fcur v \<le> 0"
    using assms(1) by (auto simp: brent_bracketed_def)
  have "fcur v * g (xcur ?w) < 0 \<or> fblk v * g (xcur ?w) \<le> 0"
    by (rule sign_carry [OF b(3) assms(2)])
  then show ?thesis
    using b by (simp add: brent_inv_def brent_step_fields)
qed

lemma brent_bracketed_near:
  assumes "brent_bracketed g v" and "fcur v = 0 \<or> \<bar>brent_sbis v\<bar> < brent_delta v"
  shows "near_sign_change g (xcur v)"
proof (cases "fcur v = 0")
  case True
  then show ?thesis using assms(1) by (simp add: near_sign_change_def brent_bracketed_def)
next
  case False
  then have "\<bar>brent_sbis v\<bar> < brent_delta v" using assms(2) by simp
  then have "\<bar>xblk v - xcur v\<bar> < brentq_xtol + brentq_rtol * \<bar>xcur v\<bar>"
    by (simp add: brent_sbis_def brent_delta_def)
  moreover have "g (xblk v) * g (xcur v) \<le> 0"
    using assms(1) unfolding brent_bracketed_def by metis
  ultimately show ?thesis unfolding near_sign_change_def by blast
qed

lemma brentq_loop_bracket:
  assumes f_g: "callback_computes I f g"
  shows "I s \<Longrightarrow> brent_inv g v \<Longrightarrow> brentq_loop f n v s = (Inr x, s')
           \<Longrightarrow> near_sign_change g x \<and> I s'"
proof (induction n arbitrary: v s)
  case 0
  then show ?case by simp
next
  case (Suc n)
  let ?v1 = "brent_swap (brent_rebracket v)"
  let ?v2 = "brent_advance (brent_choose ?v1)"
  have br: "brent_bracketed g ?v1" by (rule brent_rebracket_swap [OF Suc.prems(2)])
  show ?case
  proof (cases "fcur ?v1 = 0 \<or> \<bar>brent_sbis ?v1\<bar> < brent_delta ?v1")
    case True
    then have "x = xcur ?v1" and "s' = s" using Suc.prems(3) by (simp_all add: Let_def)
    then show ?thesis using brent_bracketed_near [OF br True] Suc.prems(1) by simp
  next
    case False
    obtain res t where fx: "f (xcur ?v2) s = (res, t)" by (cases "f (xcur ?v2) s")
    show ?thesis
    proof (cases res)
      case (Inl e)
      then show ?thesis using False fx Suc.prems(3) by (simp add: Let_def)
    next
      case (Inr y)
      have yg: "y = g (xcur ?v2)" and It: "I t"
        using f_g Suc.prems(1) fx Inr unfolding callback_computes_def by blast+
      have inv': "brent_inv g (?v2\<lparr>fcur := y\<rparr>)"
        using brent_step_inv [OF br] False yg by simp
      have "brentq_loop f n (?v2\<lparr>fcur := y\<rparr>) t = (Inr x, s')"
        using False fx Inr Suc.prems(3) by (simp add: Let_def)
      then show ?thesis by (rule Suc.IH [OF It inv'])
    qed
  qed
qed

lemma brentq_bracket:
  assumes f_g: "callback_computes I f g"
    and "I s" and res: "brentq f a b s = (Inr x, s')"
  shows "near_sign_change g x \<and> I s'"
proof -
  obtain ra s1 where fa: "f a s = (ra, s1)" by (cases "f a s")
  obtain ya where ra: "ra = Inr ya" using res fa by (cases ra) (simp_all add: brentq_def)
  have ya: "ya = g a" and I1: "I s1" using f_g assms(2) fa ra unfolding callback_computes_def by blast+
  obtain rb s2 where fb: "f b s1 = (rb, s2)" by (cases "f b s1")
  obtain yb where rb: "rb = Inr yb" using res fa ra fb by (cases rb) (simp_all add: brentq_def)
  have yb: "yb = g b" and I2: "I s2" using f_g I1 fb rb unfolding callback_computes_def by blast+
  have nb: "\<not> ya * yb > 0" using res fa ra fb rb by (auto simp: brentq_def split: if_splits)
  show ?thesis
  proof (cases "ya = 0")
    case True
    then have "x = a" "s' = s2" using res fa ra fb rb nb by (simp_all add: brentq_def)
    then show ?thesis using True ya I2 by (simp add: near_sign_change_def)
  next
    case na: False
    show ?thesis
    proof (cases "yb = 0")
      case True
      then have "x = b" "s' = s2" using res fa ra fb rb nb na by (simp_all add: brentq_def)
      then show ?thesis using True yb I2 by (simp add: near_sign_change_def)
    next
      case False
      let ?v = "\<lparr>xpre = a, xcur = b, xblk = 0, fpre = ya, fcur = yb, fblk = 0, spre = 0, scur = 0\<rparr>"
      have "ya * yb < 0" using nb na False by (simp add: less_le)
      then have inv: "brent_inv g ?v" using ya yb by (simp add: brent_inv_def)
      have "brentq_loop f brentq_maxiter ?v s2 = (Inr x, s')"
        using res fa ra fb rb nb na False by (simp add: brentq_def)
      then show ?thesis by (rule brentq_loop_bracket [OF f_g I2 inv])
    qed
  qed
qed

lemma sign_change_root:
  fixes g :: "real \<Rightarrow> real"
  assumes cont: "continuous_on UNIV g" and sc: "g x' * g x \<le> 0"
  shows "\<exists>z. g z = 0 \<and> \<bar>z - x\<bar> \<le> \<bar>x' - x\<bar>"
proof -
  have key: "\<exists>z. a \<le> z \<and> z \<le> b \<and> g z = 0" if "a \<le> b" "g a * g b \<le> 0" for a b
  proof -
    have c: "continuous_on {a..b} g" using cont by (rule continuous_on_subset) simp
    from that(2) consider "g a \<le> 0 \<and> 0 \<le> g b" | "g b \<le> 0 \<and> 0 \<le> g a"
      by (auto simp: mult_le_0_iff)
    then show ?thesis
    proof cases
      case 1
      then show ?thesis using IVT' [of g a 0 b] that(1) c by auto
    next
      case 2
      then show ?thesis using IVT2' [of g b 0 a] that(1) c by auto
    qed
  qed
  show ?thesis
  proof (cases "x \<le> x'")
    case True
    from key [OF True] sc obtain z where "x \<le> z" "z \<le> x'" "g z = 0"
      by (auto simp: mult.commute)
    then show ?thesis by (intro exI [of _ z]) auto
  next
    case False
    then have "x' \<le> x" by simp
    from key [OF this] sc obtain z where "x' \<le> z" "z \<le> x" "g z = 0" by auto
    then show ?thesis by (intro exI [of _ z]) auto
  qed
qed

subsection \<open>The isentrope solver and the evaluator\<close>

lemma same_table_refl: "same_table r r"
  by (simp add: same_table_def)

lemma same_table_fields:
  assumes "same_table r r'"
  shows "table r' = table r" and "bounds r' = bounds r" and "accepts r' = accepts r"
    and "molar_mass r' = molar_mass r"
proof -
  have eq: "r'\<lparr>state := None\<rparr> = r\<lparr>state := None\<rparr>" using assms by (simp add: same_table_def)
  show "table r' = table r" using arg_cong [OF eq, of table] by simp
  show "bounds r' = bounds r" using arg_cong [OF eq, of bounds] by simp
  show "accepts r' = accepts r" using arg_cong [OF eq, of accepts] by simp
  show "molar_mass r' = molar_mass r" using arg_cong [OF eq, of molar_mass] by simp
qed

lemma same_table_state: "same_table r r' \<Longrightarrow> r'\<lparr>state := state r\<rparr> = r"
proof -
  assume "same_table r r'"
  then have "r'\<lparr>state := None\<rparr> = r\<lparr>state := None\<rparr>" by (simp add: same_table_def)
  then have "(r'\<lparr>state := None\<rparr>)\<lparr>state := state r\<rparr> = (r\<lparr>state := None\<rparr>)\<lparr>state := state r\<rparr>"
    by simp
  then show ?thesis by simp
qed

lemma deltaS_eq:
  "deltaS T S0 P r =
     (if accepts r P T then (Inr (table r Prop_S P T - S0), r\<lparr>state := Some (P, T)\<rparr>)
      else (Inl PropertySourceError, r))"
  by (simp add: deltaS_def set_state_def read_property_def)

lemma deltaS_same_table: "same_table r0 s \<Longrightarrow> same_table r0 (snd (deltaS T S0 P s))"
  by (simp add: deltaS_eq same_table_def)

lemma deltaS_computes:
  "callback_computes (same_table r0) (\<lambda>T. deltaS T S0 P) (\<lambda>T. table r0 Prop_S P T - S0)"
  unfolding callback_computes_def
proof (intro allI impI)
  fix x s y s'
  assume st: "same_table r0 s" and d: "deltaS x S0 P s = (Inr y, s')"
  have acc: "accepts s P x" using d by (auto simp: deltaS_eq split: if_splits)
  have "y = table s Prop_S P x - S0" and s': "s' = s\<lparr>state := Some (P, x)\<rparr>"
    using d acc by (simp_all add: deltaS_eq)
  then show "y = table r0 Prop_S P x - S0 \<and> same_table r0 s'"
    using st same_table_fields(1) [OF st] by (simp add: same_table_def)
qed

lemma deltaS_rel:
  assumes "same_table s1 s2"
  shows "fst (deltaS T S0 P s1) = fst (deltaS T S0 P s2)
         \<and> same_table (snd (deltaS T S0 P s1)) (snd (deltaS T S0 P s2))"
proof (cases "accepts s1 P T")
  case True
  have "(s2\<lparr>state := Some (P, T)\<rparr>)\<lparr>state := None\<rparr> = (s1\<lparr>state := Some (P, T)\<rparr>)\<lparr>state := None\<rparr>"
    using assms by (simp add: same_table_def)
  then show ?thesis
    using True same_table_fields(1,3) [OF assms] by (simp add: deltaS_eq same_table_def)
next
  case False
  then show ?thesis
    using assms same_table_fields(3) [OF assms] by (simp add: deltaS_eq)
qed

lemma isentrope_loop_same_table:
  "same_table r0 r \<Longrightarrow> same_table r0 (snd (isentrope_loop r ps S0 sol))"
proof (induction ps arbitrary: r sol)
  case Nil
  then show ?case by simp
next
  case (Cons P Ps)
  let ?b = "brentq (\<lambda>T. deltaS T S0 P) (fst (snd (bounds r))) (snd (snd (bounds r))) r"
  have 1: "same_table r0 (snd ?b)"
    by (rule brentq_inv [of "same_table r0"]) (simp_all add: deltaS_same_table Cons.prems)
  obtain res r' where b: "?b = (res, r')" by (cases ?b)
  have r': "same_table r0 r'" using 1 b by simp
  show ?case
  proof (cases res)
    case (Inl e)
    then show ?thesis using b r' by simp
  next
    case (Inr sol')
    obtain res2 r'' where l: "isentrope_loop r' Ps S0 sol' = (res2, r'')"
      by (cases "isentrope_loop r' Ps S0 sol'")
    have "same_table r0 r''" using Cons.IH [OF r', of sol'] l by simp
    then show ?thesis using b Inr l by (cases res2) simp_all
  qed
qed

lemma isentrope_loop_near:
  "same_table r0 r \<Longrightarrow> isentrope_loop r ps S0 sol = (Inr ts, r')
     \<Longrightarrow> list_all2 (\<lambda>P T. near_sign_change (\<lambda>T. table r0 Prop_S P T - S0) T) ps ts"
proof (induction ps arbitrary: r sol ts r')
  case Nil
  then show ?case by simp
next
  case (Cons P Ps)
  let ?b = "brentq (\<lambda>T. deltaS T S0 P) (fst (snd (bounds r))) (snd (snd (bounds r))) r"
  obtain res r1 where b: "?b = (res, r1)" by (cases ?b)
  obtain x where res: "res = Inr x" using Cons.prems(2) b by (cases res) simp_all
  have near: "near_sign_change (\<lambda>T. table r0 Prop_S P T - S0) x" and r1: "same_table r0 r1"
    using brentq_bracket [OF deltaS_computes Cons.prems(1)] b res by blast+
  obtain res2 r2 where l: "isentrope_loop r1 Ps S0 x = (res2, r2)"
    by (cases "isentrope_loop r1 Ps S0 x")
  obtain ts' where res2: "res2 = Inr ts'" using Cons.prems(2) b res l by (cases res2) simp_all
  have ts: "ts = x # ts'" using Cons.prems(2) b res l res2 by simp
  have "list_all2 (\<lambda>P T. near_sign_change (\<lambda>T. table r0 Prop_S P T - S0) T) Ps ts'"
    using Cons.IH [OF r1] l res2 by simp
  then show ?case using near ts by simp
qed

lemma isentrope_loop_state_indep:
  "same_table r1 r2
     \<Longrightarrow> fst (isentrope_loop r1 ps S0 sol) = fst (isentrope_loop r2 ps S0 sol)
         \<and> same_table (snd (isentrope_loop r1 ps S0 sol)) (snd (isentrope_loop r2 ps S0 sol))"
proof (induction ps arbitrary: r1 r2 sol)
  case Nil
  then show ?case by simp
next
  case (Cons P Ps)
  have bd: "bounds r2 = bounds r1" by (rule same_table_fields(2) [OF Cons.prems])
  let ?b1 = "brentq (\<lambda>T. deltaS T S0 P) (fst (snd (bounds r1))) (snd (snd (bounds r1))) r1"
  let ?b2 = "brentq (\<lambda>T. deltaS T S0 P) (fst (snd (bounds r1))) (snd (snd (bounds r1))) r2"
  have rel: "fst ?b1 = fst ?b2 \<and> same_table (snd ?b1) (snd ?b2)"
    by (rule brentq_rel [of same_table]) (simp_all add: deltaS_rel Cons.prems)
  obtain res t1 where b1: "?b1 = (res, t1)" by (cases ?b1)
  obtain res' t2 where b2: "?b2 = (res', t2)" by (cases ?b2)
  have eq: "res' = res" and R': "same_table t1 t2" using rel b1 b2 by simp_all
  show ?case
  proof (cases res)
    case (Inl e)
    then show ?thesis using b1 b2 eq R' bd by simp
  next
    case (Inr x)
    have ih: "fst (isentrope_loop t1 Ps S0 x) = fst (isentrope_loop t2 Ps S0 x)
         \<and> same_table (snd (isentrope_loop t1 Ps S0 x)) (snd (isentrope_loop t2 Ps S0 x))"
      by (rule Cons.IH [OF R'])
    obtain q1 u1 where l1: "isentrope_loop t1 Ps S0 x = (q1, u1)"
      by (cases "isentrope_loop t1 Ps S0 x")
    obtain q2 u2 where l2: "isentrope_loop t2 Ps S0 x = (q2, u2)"
      by (cases "isentrope_loop t2 Ps S0 x")
    have q: "q2 = q1" and su: "same_table u1 u2" using ih l1 l2 by simp_all
    show ?thesis
    proof (cases q1)
      case (Inl e)
      then show ?thesis using b1 b2 eq Inr bd l1 l2 q su by simp
    next
      case (Inr ts)
      then show ?thesis using b1 b2 eq \<open>res = Inr x\<close> bd l1 l2 q su by simp
    qed
  qed
qed

subsection \<open>Evaluating the root finder on numerals\<close>

lemma brentq_loop_numeral:
  "brentq_loop f (numeral k) v s =
     (let v1 = brent_swap (brent_rebracket v)
      in if fcur v1 = 0 \<or> \<bar>brent_sbis v1\<bar> < brent_delta v1 then (Inr (xcur v1), s)
         else (let v2 = brent_advance (brent_choose v1)
               in (case f (xcur v2) s of
                     (Inl e, s') \<Rightarrow> (Inl e, s')
                   | (Inr y, s') \<Rightarrow> brentq_loop f (pred_numeral k) (v2\<lparr>fcur := y\<rparr>) s')))"
  by (simp add: numeral_eq_Suc)

lemmas brent_defs = brentq_def deltaS_def set_state_def read_property_def brentq_maxiter_def
  brent_swap_def brent_rebracket_def brent_sbis_def brent_delta_def brent_advance_def
  brent_choose_def brent_stry_def brentq_xtol_def brentq_rtol_def Let_def

lemma rock_step_isentrope:
  "isentrope rock_step [100000] 0 1550
     = (Inr [T_step], rock_step\<lparr>state := Some (100000, T_step)\<rparr>)"
  by (simp add: isentrope_def rock_step_def T_step_def brent_defs brentq_loop_numeral)

lemma rock_step_continuous: "continuous_on UNIV (table rock_step Prop_S P)"
  unfolding rock_step_def by (simp, intro continuous_intros)

lemma near_sign_change_root:
  assumes "near_sign_change (\<lambda>T. S T - S0) x" and "continuous_on UNIV S"
  shows "\<exists>Tstar. S Tstar = S0 \<and> \<bar>Tstar - x\<bar> < brentq_xtol + brentq_rtol * \<bar>x\<bar>"
proof (cases "S x - S0 = 0")
  case True
  have "0 < brentq_xtol + brentq_rtol * \<bar>x\<bar>"
    by (simp add: brentq_xtol_def brentq_rtol_def add_pos_nonneg)
  then show ?thesis using True by (intro exI [of _ x]) simp
next
  case False
  then obtain x' where x': "\<bar>x' - x\<bar> < brentq_xtol + brentq_rtol * \<bar>x\<bar>"
      and sc: "(S x' - S0) * (S x - S0) \<le> 0"
    using assms(1) unfolding near_sign_change_def by blast
  have "continuous_on UNIV (\<lambda>T. S T - S0)" using assms(2) by (intro continuous_intros)
  from sign_change_root [OF this sc] obtain z where "S z - S0 = 0" "\<bar>z - x\<bar> \<le> \<bar>x' - x\<bar>"
    by blast
  then show ?thesis using x' by (intro exI [of _ z]) simp
qed

text \<open>
  Claim C1, as amended. \<open>brentq\<close> stops on the width of its bracket, not on the size of
  the residual. When \<open>isentrope\<close> returns, it returns one temperature per pressure, and
  for an evaluator whose entropy is continuous in temperature an exact solution of
  \<open>S(P_i, T) = S0\<close> lies within \<open>xtol + rtol * |T_i|\<close> of each \<open>T_i\<close>.
\<close>

theorem isentrope_temperature_tolerance:
  assumes "isentrope r pressures entropy T_guess = (Inr temperatures, r')"
    and "\<forall>P \<in> set pressures. continuous_on UNIV (table r Prop_S P)"
  shows "length temperatures = length pressures \<and>
         (\<forall>i < length pressures. \<exists>Tstar.
            table r Prop_S (pressures ! i) Tstar = entropy \<and>
            \<bar>Tstar - temperatures ! i\<bar> < brentq_xtol + brentq_rtol * \<bar>temperatures ! i\<bar>)"
proof -
  have near: "list_all2 (\<lambda>P T. near_sign_change (\<lambda>T. table r Prop_S P T - entropy) T)
                pressures temperatures"
    using isentrope_loop_near [OF same_table_refl] assms(1) unfolding isentrope_def by blast
  then have len: "length temperatures = length pressures" by (simp add: list_all2_lengthD)
  have "\<exists>Tstar. table r Prop_S (pressures ! i) Tstar = entropy \<and>
          \<bar>Tstar - temperatures ! i\<bar> < brentq_xtol + brentq_rtol * \<bar>temperatures ! i\<bar>"
    if i: "i < length pressures" for i
  proof -
    have "near_sign_change (\<lambda>T. table r Prop_S (pressures ! i) T - entropy) (temperatures ! i)"
      using near i by (simp add: list_all2_conv_all_nth)
    moreover have "continuous_on UNIV (table r Prop_S (pressures ! i))"
      using assms(2) i by simp
    ultimately show ?thesis by (rule near_sign_change_root)
  qed
  then show ?thesis using len by blast
qed

theorem isentrope_temperature_tolerance_witness:
  "\<exists>Tstar. table rock_step Prop_S 100000 Tstar = 0 \<and>
      \<bar>Tstar - T_step\<bar> < brentq_xtol + brentq_rtol * \<bar>T_step\<bar>"
proof -
  have c: "\<forall>P \<in> set [100000 :: real]. continuous_on UNIV (table rock_step Prop_S P)"
    by (simp add: rock_step_continuous)
  show ?thesis
    using isentrope_temperature_tolerance [OF rock_step_isentrope c] by simp
qed

text \<open>
  Claim C1 as stated fails: on \<open>rock_step\<close>, whose entropy is continuous in temperature
  and brackets the target, \<open>isentrope\<close> returns a temperature at which the entropy misses
  the target by more than the root finder's tolerance \<open>xtol + rtol * |T|\<close>.
\<close>

theorem isentrope_residual_counterexample:
  "fst (isentrope rock_step [100000] 0 1550) = Inr [T_step] \<and>
   continuous_on UNIV (table rock_step Prop_S 100000) \<and>
   \<not> \<bar>table rock_step Prop_S 100000 T_step - 0\<bar> < brentq_xtol + brentq_rtol * \<bar>T_step\<bar>"
proof -
  have "\<not> \<bar>table rock_step Prop_S 100000 T_step - 0\<bar> < brentq_xtol + brentq_rtol * \<bar>T_step\<bar>"
    by (simp add: rock_step_def T_step_def brentq_xtol_def brentq_rtol_def)
  then show ?thesis using rock_step_isentrope rock_step_continuous by simp
qed

lemma reference_isentrope_same_table:
  "same_table r (snd (reference_isentrope spline r potential_temperature max_pressure n_points))"
proof (cases "accepts r 100000 potential_temperature")
  case False
  then show ?thesis by (simp add: reference_isentrope_def set_state_def same_table_refl)
next
  case True
  define r1 where "r1 = r\<lparr>state := Some (100000, potential_temperature)\<rparr>"
  define pressures where "pressures = linspace 100000 max_pressure n_points"
  define entropy where "entropy = table r Prop_S 100000 potential_temperature"
  have s1: "set_state 100000 potential_temperature r = Inr r1"
    using True by (simp add: set_state_def r1_def)
  have e: "read_property Prop_S r1 = Inr entropy"
    by (simp add: read_property_def r1_def entropy_def)
  have "same_table r r1" by (simp add: same_table_def r1_def)
  then have st: "same_table r (snd (isentrope r1 pressures entropy potential_temperature))"
    unfolding isentrope_def by (rule isentrope_loop_same_table)
  obtain res r2 where i: "isentrope r1 pressures entropy potential_temperature = (res, r2)"
    by (cases "isentrope r1 pressures entropy potential_temperature")
  have "snd (reference_isentrope spline r potential_temperature max_pressure n_points) = r2"
    using s1 e i
    by (simp add: reference_isentrope_def pressures_def [symmetric] Let_def
        split: sum.splits)
  then show ?thesis using st i by simp
qed

lemma relaxed_profile_evaluator:
  "snd (relaxed_profile lib r potential_temperature max_pressure surface_gravity outer_radius
          n_points n_gridpoints pressure_stdev temperature_smoothing_factor
          max_temperature_stdev truncate' min_grid_temperature max_grid_temperature)
     = snd (reference_isentrope (lib_spline lib) r potential_temperature max_pressure n_points)"
  by (simp add: relaxed_profile_def split: prod.splits sum.splits)

lemma reference_isentrope_state_indep:
  "accepts r 100000 potential_temperature \<Longrightarrow>
   reference_isentrope spline (r\<lparr>state := st\<rparr>) potential_temperature max_pressure n_points
     = reference_isentrope spline r potential_temperature max_pressure n_points"
  by (simp add: reference_isentrope_def set_state_def)

lemma relaxed_profile_state_indep:
  "fst (relaxed_profile lib (r\<lparr>state := st\<rparr>) potential_temperature max_pressure
          surface_gravity outer_radius n_points n_gridpoints pressure_stdev
          temperature_smoothing_factor max_temperature_stdev truncate' min_grid_temperature
          max_grid_temperature)
     = fst (relaxed_profile lib r potential_temperature max_pressure surface_gravity
              outer_radius n_points n_gridpoints pressure_stdev temperature_smoothing_factor
              max_temperature_stdev truncate' min_grid_temperature max_grid_temperature)"
proof (cases "accepts r 100000 potential_temperature")
  case True
  show ?thesis
    unfolding relaxed_profile_def reference_isentrope_state_indep [OF True] ..
next
  case False
  then show ?thesis
    by (simp add: relaxed_profile_def reference_isentrope_def set_state_def)
qed

lemma evaluate_state_indep:
  "evaluate names pressures temperatures (r\<lparr>state := st\<rparr>)
     = evaluate names pressures temperatures r"
  by (simp add: evaluate_def)

lemma window_grid_state_indep:
  "window_grid (r\<lparr>state := st\<rparr>) isentrope_spline n_gridpoints pressure_stdev
     temperature_smoothing_factor max_temperature_stdev truncate'
   = window_grid r isentrope_spline n_gridpoints pressure_stdev temperature_smoothing_factor
       max_temperature_stdev truncate'"
  unfolding window_grid_def evaluate_state_indep by simp

lemma assemble_profile_state_indep:
  "assemble_profile lib (r\<lparr>state := st\<rparr>) surface_gravity outer_radius pressures
     smoothed_temperatures S_interps V_interps
   = assemble_profile lib r surface_gravity outer_radius pressures smoothed_temperatures
       S_interps V_interps"
proof -
  have m: "molar_mass (r\<lparr>state := st\<rparr>) = molar_mass r" by simp
  show ?thesis unfolding assemble_profile_def evaluate_state_indep m ..
qed

text \<open>
  Claim C8, as amended. The core computations drive the evaluator through \<open>set_state\<close>.
  The evaluator that \<open>isentrope\<close> and \<open>relaxed_profile\<close> (which builds the grid and
  assembles the profile) leave behind differs from the one they were given at most in the
  point last set: its property table, bounds and molar mass are unchanged. The results of
  the isentrope solver, of the grid builder, of the profile assembly and of
  \<open>relaxed_profile\<close> as a whole do not depend on the point the evaluator was at when
  called. (The depth and gravity integrator and the smoothed isentrope solver are not given
  the evaluator.)
\<close>

theorem core_only_sets_state:
  "(snd (isentrope r pressures entropy T_guess))\<lparr>state := state r\<rparr> = r \<and>
   fst (isentrope (r\<lparr>state := st\<rparr>) pressures entropy T_guess)
     = fst (isentrope r pressures entropy T_guess) \<and>
   (snd (relaxed_profile lib r potential_temperature max_pressure surface_gravity outer_radius
           n_points n_gridpoints pressure_stdev temperature_smoothing_factor
           max_temperature_stdev truncate' min_grid_temperature max_grid_temperature))
      \<lparr>state := state r\<rparr> = r \<and>
   fst (relaxed_profile lib (r\<lparr>state := st\<rparr>) potential_temperature max_pressure
          surface_gravity outer_radius n_points n_gridpoints pressure_stdev
          temperature_smoothing_factor max_temperature_stdev truncate' min_grid_temperature
          max_grid_temperature)
     = fst (relaxed_profile lib r potential_temperature max_pressure surface_gravity
              outer_radius n_points n_gridpoints pressure_stdev temperature_smoothing_factor
              max_temperature_stdev truncate' min_grid_temperature max_grid_temperature) \<and>
   window_grid (r\<lparr>state := st\<rparr>) isentrope_spline n_gridpoints pressure_stdev
       temperature_smoothing_factor max_temperature_stdev truncate'
     = window_grid r isentrope_spline n_gridpoints pressure_stdev temperature_smoothing_factor
         max_temperature_stdev truncate' \<and>
   assemble_profile lib (r\<lparr>state := st\<rparr>) surface_gravity outer_radius pressures
       smoothed_temperatures S_interps V_interps
     = assemble_profile lib r surface_gravity outer_radius pressures smoothed_temperatures
         S_interps V_interps"
proof -
  have "same_table r (snd (isentrope_loop r pressures entropy T_guess))"
    by (rule isentrope_loop_same_table [OF same_table_refl])
  then have 1: "(snd (isentrope r pressures entropy T_guess))\<lparr>state := state r\<rparr> = r"
    unfolding isentrope_def by (rule same_table_state)
  have "same_table (r\<lparr>state := st\<rparr>) r" by (simp add: same_table_def)
  then have 2: "fst (isentrope (r\<lparr>state := st\<rparr>) pressures entropy T_guess)
     = fst (isentrope r pressures entropy T_guess)"
    unfolding isentrope_def using isentrope_loop_state_indep by blast
  have 3: "(snd (relaxed_profile lib r potential_temperature max_pressure surface_gravity
           outer_radius n_points n_gridpoints pressure_stdev temperature_smoothing_factor
           max_temperature_stdev truncate' min_grid_temperature max_grid_temperature))
      \<lparr>state := state r\<rparr> = r"
    unfolding relaxed_profile_evaluator
    by (rule same_table_state [OF reference_isentrope_same_table])
  show ?thesis
    using 1 2 3 relaxed_profile_state_indep window_grid_state_indep
      assemble_profile_state_indep
    by simp
qed

text \<open>
  Claim C8 as stated fails: the evaluator is not the same after a call of \<open>isentrope\<close>;
  its state has moved from the point set by the caller to the last trial point of the last
  solve.
\<close>

theorem isentrope_mutates_evaluator_counterexample:
  "snd (isentrope rock_step [100000] 0 1550) \<noteq> rock_step \<and>
   state rock_step = Some (100000, 1550) \<and>
   state (snd (isentrope rock_step [100000] 0 1550)) = Some (100000, T_step)"
proof -
  have s: "state (snd (isentrope rock_step [100000] 0 1550)) = Some (100000, T_step)"
    by (simp add: rock_step_isentrope)
  have s0: "state rock_step = Some (100000, 1550)" by (simp add: rock_step_def)
  have "T_step \<noteq> 1550" by (simp add: T_step_def)
  then have "state (snd (isentrope rock_step [100000] 0 1550)) \<noteq> state rock_step"
    using s s0 by simp
  then have "snd (isentrope rock_step [100000] 0 1550) \<noteq> rock_step" by auto
  then show ?thesis using s s0 by simp
qed

subsection \<open>Targets outside the bracket\<close>

lemma isentrope_loop_append:
  "isentrope_loop r (ps1 @ ps2) S0 sol =
     (case isentrope_loop r ps1 S0 sol of
        (Inl e, r') \<Rightarrow> (Inl e, r')
      | (Inr ts1, r') \<Rightarrow>
          (case isentrope_loop r' ps2 S0 sol of
             (Inl e, r'') \<Rightarrow> (Inl e, r'')
           | (Inr ts2, r'') \<Rightarrow> (Inr (ts1 @ ts2), r'')))"
proof (induction ps1 arbitrary: r sol)
  case Nil
  then show ?case by (simp split: prod.splits sum.splits)
next
  case (Cons P Ps)
  let ?b = "brentq (\<lambda>T. deltaS T S0 P) (fst (snd (bounds r))) (snd (snd (bounds r))) r"
  obtain res r1 where b: "?b = (res, r1)" by (cases ?b)
  show ?case
  proof (cases res)
    case (Inl e)
    then show ?thesis using b by simp
  next
    case (Inr x)
    have g: "isentrope_loop r1 ps2' S0 x = isentrope_loop r1 ps2' S0 sol" for ps2'
      by (rule isentrope_loop_guess)
    show ?thesis
      using b Inr Cons.IH [of r1 sol] isentrope_loop_guess [of _ _ S0 x sol]
      by (simp split: prod.splits sum.splits)
  qed
qed

lemma brentq_not_bracketed:
  assumes st: "same_table r r'"
    and ns: "\<not> entropy_spanned r P S0"
    and le: "fst (snd (bounds r)) \<le> snd (snd (bounds r))"
    and acc: "accepts r P (fst (snd (bounds r)))" "accepts r P (snd (snd (bounds r)))"
  shows "fst (brentq (\<lambda>T. deltaS T S0 P) (fst (snd (bounds r))) (snd (snd (bounds r))) r')
           = Inl RootNotBracketed"
proof -
  let ?a = "fst (snd (bounds r))" and ?b = "snd (snd (bounds r))"
  let ?S = "table r Prop_S P"
  have n: "\<not> (?S T1 \<le> S0 \<and> S0 \<le> ?S T2)"
    if "?a \<le> T1" "T1 \<le> ?b" "?a \<le> T2" "T2 \<le> ?b" for T1 T2
    using ns that unfolding entropy_spanned_def by blast
  have "(?S ?a < S0 \<and> ?S ?b < S0) \<or> (S0 < ?S ?a \<and> S0 < ?S ?b)"
    using n [of ?a ?a] n [of ?b ?b] n [of ?a ?b] n [of ?b ?a] le by auto
  then have pos: "0 < (?S ?a - S0) * (?S ?b - S0)"
    by (auto simp: zero_less_mult_iff)
  have f: "table r' = table r" "accepts r' = accepts r"
    using same_table_fields [OF st] by simp_all
  show ?thesis using pos acc f by (simp add: brentq_def deltaS_eq)
qed

lemma fsolve_errors: "fsolve hybrd func x0 = Inl e \<Longrightarrow> e = ImproperInput"
  by (auto simp: fsolve_def Let_def split: prod.splits if_splits)

lemma fsolve_returns:
  "snd (hybrd func x0) \<in> {1, 2, 3, 4, 5} \<Longrightarrow> fsolve hybrd func x0 = Inr (fst (hybrd func x0))"
  by (auto simp: fsolve_def Let_def split: prod.splits)

lemma interp_isentrope_loop_errors:
  "interp_isentrope_loop hybrd interp ps S0 sol = Inl e \<Longrightarrow> e = ImproperInput"
proof (induction ps arbitrary: sol)
  case Nil
  then show ?case by simp
next
  case (Cons P Ps)
  then show ?case
    by (auto split: sum.splits dest: fsolve_errors)
qed

lemma interp_isentrope_loop_returns:
  assumes "\<And>func x. snd (hybrd func x) \<in> {1, 2, 3, 4, 5}"
  shows "\<exists>ts. interp_isentrope_loop hybrd interp ps S0 sol = Inr ts \<and> length ts = length ps"
proof (induction ps arbitrary: sol)
  case Nil
  then show ?case by simp
next
  case (Cons P Ps)
  let ?x = "fst (hybrd (\<lambda>T. interp P T - S0) sol)"
  have 1: "fsolve hybrd (\<lambda>T. interp P T - S0) sol = Inr ?x"
    by (rule fsolve_returns [OF assms])
  obtain ts where "interp_isentrope_loop hybrd interp Ps S0 ?x = Inr ts" "length ts = length Ps"
    using Cons.IH [of ?x] by blast
  then show ?case using 1 by simp
qed

text \<open>
  Claim C5, as amended. When the target entropy is not spanned by the evaluator's entropy
  over its temperature bounds at a pressure (and the evaluator accepts the two bounds there),
  \<open>isentrope\<close> returns no temperatures: it fails with \<open>RootNotBracketed\<close> at that
  pressure, unless the solve at an earlier pressure has already failed, whose error it then
  raises. \<open>interp_isentrope\<close> checks no bracket and raises neither \<open>RootNotBracketed\<close>
  nor \<open>NonConvergence\<close>: whenever its solver reports convergence, an exhausted budget or
  no progress, the solver's last iterate is taken as the temperature, one per pressure.
\<close>

theorem unbracketed_target:
  assumes "\<not> entropy_spanned r P entropy"
    and "fst (snd (bounds r)) \<le> snd (snd (bounds r))"
    and "accepts r P (fst (snd (bounds r)))" and "accepts r P (snd (snd (bounds r)))"
  shows "fst (isentrope r (ps1 @ P # ps2) entropy T_guess)
           = (case fst (isentrope r ps1 entropy T_guess) of
                Inl e \<Rightarrow> Inl e
              | Inr ts \<Rightarrow> Inl RootNotBracketed)
         \<and> interp_isentrope hybrd interp pressures entropy T_guess \<noteq> Inl RootNotBracketed
         \<and> interp_isentrope hybrd interp pressures entropy T_guess \<noteq> Inl NonConvergence
         \<and> ((\<forall>func x. snd (hybrd func x) \<in> {1, 2, 3, 4, 5}) \<longrightarrow>
              (\<exists>ts. interp_isentrope hybrd interp pressures entropy T_guess = Inr ts
                    \<and> length ts = length pressures))"
proof -
  obtain res r1 where l1: "isentrope_loop r ps1 entropy T_guess = (res, r1)"
    by (cases "isentrope_loop r ps1 entropy T_guess")
  have st: "same_table r r1"
    using isentrope_loop_same_table [OF same_table_refl, of r ps1 entropy T_guess] l1 by simp
  let ?b = "brentq (\<lambda>T. deltaS T entropy P) (fst (snd (bounds r))) (snd (snd (bounds r))) r1"
  have nb: "fst ?b = Inl RootNotBracketed"
    by (rule brentq_not_bracketed [OF st assms])
  obtain r2 where b: "?b = (Inl RootNotBracketed, r2)" using nb by (cases ?b) simp
  have bd: "bounds r1 = bounds r" by (rule same_table_fields(2) [OF st])
  have 1: "fst (isentrope r (ps1 @ P # ps2) entropy T_guess)
           = (case fst (isentrope r ps1 entropy T_guess) of
                Inl e \<Rightarrow> Inl e
              | Inr ts \<Rightarrow> Inl RootNotBracketed)"
    unfolding isentrope_def isentrope_loop_append [of r ps1 "P # ps2"]
    using l1 b bd by (cases res) simp_all
  have 2: "interp_isentrope hybrd interp pressures entropy T_guess \<noteq> Inl RootNotBracketed"
    and 3: "interp_isentrope hybrd interp pressures entropy T_guess \<noteq> Inl NonConvergence"
    unfolding interp_isentrope_def using interp_isentrope_loop_errors by fastforce+
  have 4: "(\<forall>func x. snd (hybrd func x) \<in> {1, 2, 3, 4, 5}) \<longrightarrow>
              (\<exists>ts. interp_isentrope hybrd interp pressures entropy T_guess = Inr ts
                    \<and> length ts = length pressures)"
    unfolding interp_isentrope_def using interp_isentrope_loop_returns by blast
  show ?thesis using 1 2 3 4 by blast
qed

lemma rock_lin_not_spanned: "\<not> entropy_spanned rock_lin P 3000"
  by (auto simp: entropy_spanned_def rock_lin_def)

lemma hybrd_newton_info: "snd (hybrd_newton_loop n func x) \<in> {1, 2, 3, 4, 5}"
  by (induction n arbitrary: x) (simp_all add: Let_def)

theorem unbracketed_target_witness:
  "fst (isentrope rock_lin ([] @ 100000 # [200000]) 3000 1550) = Inl RootNotBracketed
   \<and> (\<exists>ts. interp_isentrope hybrd_newton (\<lambda>P T. 0) [100000, 200000] 3000 1550 = Inr ts
             \<and> length ts = length [100000 :: real, 200000])"
proof -
  have b: "fst (snd (bounds rock_lin)) \<le> snd (snd (bounds rock_lin))"
    and a1: "accepts rock_lin 100000 (fst (snd (bounds rock_lin)))"
    and a2: "accepts rock_lin 100000 (snd (snd (bounds rock_lin)))"
    by (simp_all add: rock_lin_def)
  have h: "\<forall>func x. snd (hybrd_newton func x) \<in> {1, 2, 3, 4, 5}"
    unfolding hybrd_newton_def using hybrd_newton_info by blast
  have e: "fst (isentrope rock_lin [] 3000 1550) = Inr []" by (simp add: isentrope_def)
  show ?thesis
    using unbracketed_target [OF rock_lin_not_spanned b a1 a2, of "[]" "[200000]" 1550
        hybrd_newton "\<lambda>P T. 0" "[100000, 200000]"] h e
    by simp
qed

text \<open>
  Claim C5 as stated fails for \<open>interp_isentrope\<close>: where the smoothed entropy field is
  flat at 0 (as it is away from the window of evaluated nodes) the target 1 is not spanned
  at any temperature, and the solver returns its starting point as the temperature instead
  of raising.
\<close>

theorem interp_isentrope_returns_counterexample:
  "interp_isentrope hybrd_newton (\<lambda>P T. 0) [100000] 1 1550 = Inr [1550]"
  by (simp add: interp_isentrope_def fsolve_def hybrd_newton_def numeral_eq_Suc)

subsection \<open>The first sample of the depth and gravity profiles\<close>

lemma round_half_even_close: "\<bar>of_int (round_half_even x) - x\<bar> \<le> 1 / 2"
proof -
  have "of_int \<lfloor>x\<rfloor> \<le> x" "x < of_int \<lfloor>x\<rfloor> + 1" by linarith+
  then show ?thesis unfolding round_half_even_def Let_def by auto
qed

lemma binary_exponent_le:
  assumes "x \<noteq> 0"
  shows "2 powi binary_exponent x \<le> \<bar>x\<bar>"
proof -
  have pos: "0 < \<bar>x\<bar>" using assms by simp
  have p: "(2::real) powr real_of_int (binary_exponent x) = 2 powi binary_exponent x"
    by (simp add: powr_real_of_int')
  have "\<lfloor>log 2 \<bar>x\<bar>\<rfloor> = binary_exponent x" by (simp add: binary_exponent_def)
  then have "2 powr real_of_int (binary_exponent x) \<le> \<bar>x\<bar>"
    using pos floor_log_eq_powr_iff [of "\<bar>x\<bar>" 2 "binary_exponent x"] by simp
  then show ?thesis using p by simp
qed

lemma binary_exponent_eq:
  assumes "2 powi k \<le> \<bar>x\<bar>" and "\<bar>x\<bar> < 2 powi (k + 1)"
  shows "binary_exponent x = k"
proof -
  have "(0::real) < 2 powi k" by simp
  then have pos: "0 < \<bar>x\<bar>" using assms(1) by linarith
  have p: "(2::real) powr real_of_int j = 2 powi j" for j
    by (simp add: powr_real_of_int')
  have "(2::real) powr (real_of_int k + 1) = 2 powi (k + 1)" using p [of "k + 1"] by simp
  then have "\<lfloor>log 2 \<bar>x\<bar>\<rfloor> = k"
    using assms pos p [of k] floor_log_eq_powr_iff [of "\<bar>x\<bar>" 2 k] by simp
  then show ?thesis by (simp add: binary_exponent_def)
qed

text \<open>Rounding to a double moves a number by at most half a unit in the last place.\<close>

lemma fl_error: "\<bar>fl x - x\<bar> \<le> \<bar>x\<bar> / 2 ^ 53"
proof (cases "x = 0")
  case True
  then show ?thesis by (simp add: fl_def)
next
  case False
  define s :: real where "s = 2 powi (binary_exponent x - 52)"
  define n where "n = round_half_even (x / s)"
  have s: "0 < s" by (simp add: s_def)
  have fl: "fl x = of_int n * s" using False by (simp add: fl_def s_def n_def Let_def)
  have "s = 2 powi binary_exponent x / 2 ^ 52"
    unfolding s_def by (simp add: power_int_diff)
  then have sx: "s \<le> \<bar>x\<bar> / 2 ^ 52"
    using binary_exponent_le [OF False] by (simp add: divide_right_mono)
  have "\<bar>of_int n * s - x\<bar> = \<bar>of_int n - x / s\<bar> * s"
  proof -
    have "of_int n * s - x = (of_int n - x / s) * s" using s by (simp add: field_simps)
    then show ?thesis using s by (simp add: abs_mult)
  qed
  also have "\<dots> \<le> (1 / 2) * s"
    using round_half_even_close [of "x / s"] s unfolding n_def
    by (intro mult_right_mono) simp_all
  also have "\<dots> \<le> \<bar>x\<bar> / 2 ^ 53" using sx by simp
  finally show ?thesis using fl by simp
qed

lemma fl_factor: "\<exists>d. \<bar>d\<bar> \<le> 1 / 2 ^ 53 \<and> fl x = x * (1 + d)"
proof (cases "x = 0")
  case True
  then show ?thesis by (intro exI [of _ 0]) (simp add: fl_def)
next
  case False
  define d where "d = (fl x - x) / x"
  have "\<bar>d\<bar> = \<bar>fl x - x\<bar> / \<bar>x\<bar>" by (simp add: d_def)
  also have "\<dots> \<le> (\<bar>x\<bar> / 2 ^ 53) / \<bar>x\<bar>"
    using fl_error [of x] by (intro divide_right_mono) simp_all
  also have "\<dots> = 1 / 2 ^ 53" using False by simp
  finally have "\<bar>d\<bar> \<le> 1 / 2 ^ 53" .
  moreover have "fl x = x * (1 + d)" using False by (simp add: d_def field_simps)
  ultimately show ?thesis by blast
qed

lemma fl_eq_0_iff: "fl x = 0 \<longleftrightarrow> x = 0"
proof
  assume "fl x = 0"
  then have "\<bar>x\<bar> \<le> \<bar>x\<bar> / 2 ^ 53" using fl_error [of x] by simp
  then show "x = 0" by (simp add: field_simps)
next
  assume "x = 0" then show "fl x = 0" by (simp add: fl_def)
qed

text \<open>Evaluating \<open>fl\<close>: scale the number to a significand between \<open>2^52\<close> and \<open>2^53\<close>.\<close>

lemma fl_eval:
  assumes "2 ^ 52 \<le> \<bar>x\<bar> * 2 ^ k" and "\<bar>x\<bar> * 2 ^ k < 2 ^ 53"
  shows "fl x = of_int (round_half_even (x * 2 ^ k)) / 2 ^ k"
proof -
  have e: "(2::real) powi (52 - int k) = 2 ^ 52 / 2 ^ k"
    by (simp add: power_int_diff)
  have e1: "(2::real) powi (52 - int k + 1) = 2 ^ 53 / 2 ^ k"
  proof -
    have "(2::real) powi (53 - int k) = 2 ^ 53 / 2 ^ k" by (simp add: power_int_diff)
    then show ?thesis by (simp add: algebra_simps)
  qed
  have "2 powi (52 - int k) \<le> \<bar>x\<bar>" "\<bar>x\<bar> < 2 powi (52 - int k + 1)"
    unfolding e e1 using assms by (simp_all add: field_simps)
  then have be: "binary_exponent x = 52 - int k" by (rule binary_exponent_eq)
  have x: "x \<noteq> 0" using assms(1) by auto
  have "(2::real) powi (- int k) = 1 / 2 ^ k" by (simp add: power_int_minus field_simps)
  then show ?thesis using x by (simp add: fl_def be Let_def)
qed

text \<open>
  Two multiplications and two divisions by the same non-zero radius, each rounded, bring
  the surface gravity back to within a relative error of \<open>2^-50\<close>.
\<close>

lemma rounding_factors_2:
  fixes a b l h :: real
  assumes "0 \<le> l" and "l \<le> a" and "a \<le> h" and "l \<le> b" and "b \<le> h"
  shows "l * l \<le> a * b" and "a * b \<le> h * h"
proof -
  show "l * l \<le> a * b" using assms by (intro mult_mono) simp_all
  show "a * b \<le> h * h" using assms by (intro mult_mono) simp_all
qed

lemma rounding_factors_4:
  fixes d1 d2 d3 d4 :: real
  assumes "\<bar>d1\<bar> \<le> 1 / 2 ^ 53" and "\<bar>d2\<bar> \<le> 1 / 2 ^ 53" and "\<bar>d3\<bar> \<le> 1 / 2 ^ 53"
    and "\<bar>d4\<bar> \<le> 1 / 2 ^ 53"
  shows "\<bar>(1 + d1) * (1 + d2) * ((1 + d3) * (1 + d4)) - 1\<bar> \<le> 1 / 2 ^ 50"
proof -
  define l :: real where "l = 1 - 1 / 2 ^ 53"
  define h :: real where "h = 1 + 1 / 2 ^ 53"
  have l0: "0 \<le> l" by (simp add: l_def)
  have b: "l \<le> 1 + d1" "1 + d1 \<le> h" "l \<le> 1 + d2" "1 + d2 \<le> h"
          "l \<le> 1 + d3" "1 + d3 \<le> h" "l \<le> 1 + d4" "1 + d4 \<le> h"
    using assms unfolding l_def h_def by linarith+
  have p12: "l * l \<le> (1 + d1) * (1 + d2)" "(1 + d1) * (1 + d2) \<le> h * h"
    using rounding_factors_2 [OF l0 b(1) b(2) b(3) b(4)] by simp_all
  have p34: "l * l \<le> (1 + d3) * (1 + d4)" "(1 + d3) * (1 + d4) \<le> h * h"
    using rounding_factors_2 [OF l0 b(5) b(6) b(7) b(8)] by simp_all
  have ll0: "0 \<le> l * l" using l0 by simp
  have p: "l * l * (l * l) \<le> (1 + d1) * (1 + d2) * ((1 + d3) * (1 + d4))"
          "(1 + d1) * (1 + d2) * ((1 + d3) * (1 + d4)) \<le> h * h * (h * h)"
    using rounding_factors_2 [OF ll0 p12(1) p12(2) p34(1) p34(2)] by simp_all
  have lo: "1 - 1 / 2 ^ 50 \<le> l * l * (l * l)" by (simp add: l_def)
  have hi: "h * h * (h * h) \<le> 1 + 1 / 2 ^ 50" by (simp add: h_def)
  show ?thesis using p lo hi by linarith
qed

lemma surface_gravity_roundtrip_close:
  assumes "r \<noteq> 0"
  shows "\<bar>surface_gravity_roundtrip g r - g\<bar> \<le> \<bar>g\<bar> / 2 ^ 50"
proof -
  define a where "a = fl (g * r)"
  define b where "b = fl (a * r)"
  define c where "c = fl (b / r)"
  define d where "d = fl (c / r)"
  obtain d1 where d1: "\<bar>d1\<bar> \<le> 1 / 2 ^ 53" "a = g * r * (1 + d1)"
    unfolding a_def using fl_factor by blast
  obtain d2 where d2: "\<bar>d2\<bar> \<le> 1 / 2 ^ 53" "b = a * r * (1 + d2)"
    unfolding b_def using fl_factor by blast
  obtain d3 where d3: "\<bar>d3\<bar> \<le> 1 / 2 ^ 53" "c = b / r * (1 + d3)"
    unfolding c_def using fl_factor by blast
  obtain d4 where d4: "\<bar>d4\<bar> \<le> 1 / 2 ^ 53" "d = c / r * (1 + d4)"
    unfolding d_def using fl_factor by blast
  define p where "p = (1 + d1) * (1 + d2) * ((1 + d3) * (1 + d4))"
  have rt: "surface_gravity_roundtrip g r = d"
    by (simp add: surface_gravity_roundtrip_def a_def b_def c_def d_def)
  have "d = g * r * (1 + d1) * r * (1 + d2) / r * (1 + d3) / r * (1 + d4)"
    unfolding d4(2) d3(2) d2(2) d1(2) ..
  also have "\<dots> = g * p" using assms by (simp add: p_def)
  finally have "surface_gravity_roundtrip g r - g = g * (p - 1)"
    using rt by (simp add: algebra_simps)
  then have "\<bar>surface_gravity_roundtrip g r - g\<bar> = \<bar>g\<bar> * \<bar>p - 1\<bar>" by (simp add: abs_mult)
  also have "\<dots> \<le> \<bar>g\<bar> * (1 / 2 ^ 50)"
    using rounding_factors_4 [OF d1(1) d2(1) d3(1) d4(1)] unfolding p_def
    by (intro mult_left_mono) simp_all
  finally show ?thesis by simp
qed

text \<open>
  On the doubles nearest to 9.8 and 6371008.8 the round trip ends one unit in the last
  place above the surface gravity (\<open>9.800000000000002\<close>).
\<close>

lemma example_roundtrip:
  "surface_gravity_roundtrip example_surface_gravity example_outer_radius
     = example_surface_gravity + 1 / 2 ^ 49"
proof -
  have 1: "fl (example_surface_gravity * example_outer_radius) = 8380002796799263 / 2 ^ 27"
  proof -
    have "fl (example_surface_gravity * example_outer_radius)
        = of_int (round_half_even (example_surface_gravity * example_outer_radius * 2 ^ 27)) / 2 ^ 27"
      by (rule fl_eval) (simp_all add: example_surface_gravity_def example_outer_radius_def)
    then show ?thesis
      by (simp add: example_surface_gravity_def example_outer_radius_def round_half_even_def Let_def)
  qed
  have 2: "fl (8380002796799263 / 2 ^ 27 * example_outer_radius) = 6364473290733423 / 2 ^ 4"
  proof -
    have "fl (8380002796799263 / 2 ^ 27 * example_outer_radius)
        = of_int (round_half_even (8380002796799263 / 2 ^ 27 * example_outer_radius * 2 ^ 4)) / 2 ^ 4"
      by (rule fl_eval) (simp_all add: example_outer_radius_def)
    then show ?thesis by (simp add: example_outer_radius_def round_half_even_def Let_def)
  qed
  have 3: "fl (6364473290733423 / 2 ^ 4 / example_outer_radius) = 8380002796799264 / 2 ^ 27"
  proof -
    have "fl (6364473290733423 / 2 ^ 4 / example_outer_radius)
        = of_int (round_half_even (6364473290733423 / 2 ^ 4 / example_outer_radius * 2 ^ 27)) / 2 ^ 27"
      by (rule fl_eval) (simp_all add: example_outer_radius_def)
    then show ?thesis by (simp add: example_outer_radius_def round_half_even_def Let_def)
  qed
  have 4: "fl (8380002796799264 / 2 ^ 27 / example_outer_radius) = 5516909543528859 / 2 ^ 49"
  proof -
    have "fl (8380002796799264 / 2 ^ 27 / example_outer_radius)
        = of_int (round_half_even (8380002796799264 / 2 ^ 27 / example_outer_radius * 2 ^ 49)) / 2 ^ 49"
      by (rule fl_eval) (simp_all add: example_outer_radius_def)
    then show ?thesis by (simp add: example_outer_radius_def round_half_even_def Let_def)
  qed
  have "surface_gravity_roundtrip example_surface_gravity example_outer_radius
          = 5516909543528859 / 2 ^ 49"
    unfolding surface_gravity_roundtrip_def 1 2 3 4 ..
  then show ?thesis by (simp add: example_surface_gravity_def)
qed

lemma example_outer_radius_double: "fl example_outer_radius = example_outer_radius"
proof -
  have "fl example_outer_radius = of_int (round_half_even (example_outer_radius * 2 ^ 30)) / 2 ^ 30"
    by (rule fl_eval) (simp_all add: example_outer_radius_def)
  then show ?thesis by (simp add: example_outer_radius_def round_half_even_def Let_def)
qed

lemma odeint_length: "length (odeint lsoda func y0 t) = length t"
  by (simp add: odeint_def)

lemma odeint_first: "t \<noteq> [] \<Longrightarrow> odeint lsoda func y0 t ! 0 = y0"
  by (simp add: odeint_def nth_map)

lemma gravity_pass_result:
  assumes ne: "pressures \<noteq> []"
  shows "case gravity_pass spline lsoda G pressures densities surface_gravity outer_radius gravity of
           Inr st \<Rightarrow> first_sample_ok pressures surface_gravity outer_radius st
         | Inl e \<Rightarrow> \<exists>xs ys. spline xs ys = Inl e"
proof (cases "spline pressures densities")
  case (Inl e)
  then show ?thesis by (auto simp: gravity_pass_def)
next
  case rho: (Inr rhofunc)
  show ?thesis
  proof (cases "spline pressures gravity")
    case (Inl e)
    then show ?thesis using rho by (auto simp: gravity_pass_def)
  next
    case g: (Inr gfunc)
    define depths where
      "depths = odeint lsoda (\<lambda>p x. fl (1 / fl (gfunc x * rhofunc x))) 0 pressures"
    define radii where "radii = map (\<lambda>d. fl (outer_radius - d)) depths"
    have ld: "length depths = length pressures" and d0: "depths ! 0 = 0"
      using ne by (simp_all add: depths_def odeint_length odeint_first)
    have lr: "length radii = length pressures" by (simp add: radii_def ld)
    then obtain r0 rs where rad: "radii = r0 # rs" using ne by (cases radii) auto
    have "radii ! 0 = fl (outer_radius - depths ! 0)" using ld ne by (simp add: radii_def)
    then have r0: "r0 = fl outer_radius" using rad d0 by simp
    show ?thesis
    proof (cases "spline (rev radii) (rev densities)")
      case (Inl e)
      then show ?thesis using rho g
        by (auto simp: gravity_pass_def Let_def depths_def [symmetric] radii_def [symmetric])
    next
      case (Inr rhofunc')
      define gravity' where
        "gravity' = odeint lsoda
                      (\<lambda>p x. fl (fl (fl (fl (fl (4 * fl pi) * G) * rhofunc' x) * x) * x))
                      (fl (fl (surface_gravity * r0) * r0)) (r0 # rs)"
      have lg: "length gravity' = length pressures"
        using lr rad by (simp add: gravity'_def odeint_length)
      have g0: "gravity' ! 0 = fl (fl (surface_gravity * r0) * r0)"
        by (simp add: gravity'_def odeint_first)
      have res: "gravity_pass spline lsoda G pressures densities surface_gravity outer_radius gravity
                   = Inr (depths, map2 (\<lambda>g r. fl (fl (g / r) / r)) gravity' radii)"
        using rho g Inr rad
        by (simp add: gravity_pass_def Let_def depths_def [symmetric] radii_def [symmetric]
            gravity'_def [symmetric])
      have "map2 (\<lambda>g r. fl (fl (g / r) / r)) gravity' radii ! 0
              = fl (fl (gravity' ! 0 / radii ! 0) / radii ! 0)"
        using lg lr ne by (simp add: nth_zip)
      then have "map2 (\<lambda>g r. fl (fl (g / r) / r)) gravity' radii ! 0
                   = surface_gravity_roundtrip surface_gravity (fl outer_radius)"
        using g0 rad r0 by (simp add: surface_gravity_roundtrip_def)
      then show ?thesis using res ld lg lr d0 by (simp add: first_sample_ok_def)
    qed
  qed
qed

lemma gravity_iterations_result:
  assumes ne: "pressures \<noteq> []"
  shows "case gravity_iterations (Suc n) spline lsoda G pressures densities surface_gravity
                outer_radius st of
           Inr st' \<Rightarrow> first_sample_ok pressures surface_gravity outer_radius st'
         | Inl e \<Rightarrow> \<exists>xs ys. spline xs ys = Inl e"
proof (induction n arbitrary: st)
  case 0
  show ?case
    using gravity_pass_result [OF ne, where spline = spline and lsoda = lsoda and G = G
          and densities = densities and surface_gravity = surface_gravity
          and outer_radius = outer_radius and gravity = "snd st"]
    by (auto split: sum.splits)
next
  case (Suc n)
  show ?case
  proof (cases "gravity_pass spline lsoda G pressures densities surface_gravity outer_radius (snd st)")
    case (Inl e)
    then show ?thesis
      using gravity_pass_result [OF ne, where spline = spline and lsoda = lsoda and G = G
          and densities = densities and surface_gravity = surface_gravity
          and outer_radius = outer_radius and gravity = "snd st"]
      by simp
  next
    case (Inr st')
    then show ?thesis using Suc.IH [of st'] by simp
  qed
qed

lemma gravity_pass_returns:
  assumes fs: "fits_succeed spline (length pressures)"
    and ne: "pressures \<noteq> []"
    and ld: "length densities = length pressures"
    and lg: "length gravity = length pressures"
  shows "\<exists>st. gravity_pass spline lsoda G pressures densities surface_gravity outer_radius gravity
               = Inr st \<and> length (snd st) = length pressures"
proof -
  obtain rhofunc where rho: "spline pressures densities = Inr rhofunc"
    using fs ld unfolding fits_succeed_def by blast
  obtain gfunc where g: "spline pressures gravity = Inr gfunc"
    using fs lg unfolding fits_succeed_def by blast
  define depths where
    "depths = odeint lsoda (\<lambda>p x. fl (1 / fl (gfunc x * rhofunc x))) 0 pressures"
  define radii where "radii = map (\<lambda>d. fl (outer_radius - d)) depths"
  have lr: "length radii = length pressures" by (simp add: radii_def depths_def odeint_length)
  then obtain r0 rs where rad: "radii = r0 # rs" using ne by (cases radii) auto
  have "length (rev radii) = length pressures" "length (rev densities) = length pressures"
    using lr ld by simp_all
  then obtain rhofunc' where rho': "spline (rev radii) (rev densities) = Inr rhofunc'"
    using fs unfolding fits_succeed_def by blast
  define gravity' where
    "gravity' = odeint lsoda
                  (\<lambda>p x. fl (fl (fl (fl (fl (4 * fl pi) * G) * rhofunc' x) * x) * x))
                  (fl (fl (surface_gravity * r0) * r0)) (r0 # rs)"
  have lg': "length gravity' = length pressures"
    using lr rad by (simp add: gravity'_def odeint_length)
  have res: "gravity_pass spline lsoda G pressures densities surface_gravity outer_radius gravity
               = Inr (depths, map2 (\<lambda>g r. fl (fl (g / r) / r)) gravity' radii)"
    using rho g rho' rad
    by (simp add: gravity_pass_def Let_def depths_def [symmetric] radii_def [symmetric]
        gravity'_def [symmetric])
  show ?thesis using res lg' lr by simp
qed

lemma gravity_iterations_returns:
  assumes fs: "fits_succeed spline (length pressures)"
    and ne: "pressures \<noteq> []"
    and ld: "length densities = length pressures"
  shows "length (snd st) = length pressures \<Longrightarrow>
         \<exists>st'. gravity_iterations n spline lsoda G pressures densities surface_gravity
                 outer_radius st = Inr st'"
proof (induction n arbitrary: st)
  case 0
  then show ?case by simp
next
  case (Suc n)
  obtain st1 where 1: "gravity_pass spline lsoda G pressures densities surface_gravity
      outer_radius (snd st) = Inr st1" and l: "length (snd st1) = length pressures"
    using gravity_pass_returns [OF fs ne ld Suc.prems] by blast
  show ?case using 1 Suc.IH [OF l] by simp
qed

lemma first_fit_fails:
  assumes "spline pressures densities = Inl e"
  shows "compute_depth_gravity_profiles spline lsoda G pressures densities surface_gravity
           outer_radius = Inl e"
proof -
  have n5: "n_gravity_iterations = Suc 4" by (simp add: n_gravity_iterations_def)
  have "gravity_pass spline lsoda G pressures densities surface_gravity outer_radius gravity
          = Inl e" for gravity
    using assms by (simp add: gravity_pass_def)
  then show ?thesis
    unfolding compute_depth_gravity_profiles_def n5 gravity_iterations.simps by simp
qed

lemma spline_linear_fits: "4 \<le> n \<Longrightarrow> fits_succeed spline_linear n"
  by (simp add: fits_succeed_def spline_linear_def)

lemma UnivariateSpline_fits:
  "4 \<le> n \<Longrightarrow> fits_succeed fitpack n \<Longrightarrow> fits_succeed (UnivariateSpline fitpack) n"
  by (simp add: fits_succeed_def UnivariateSpline_def)

lemma depth_gravity_returns_first:
  assumes ne: "pressures \<noteq> []"
    and ld: "length densities = length pressures"
    and fs: "fits_succeed spline (length pressures)"
  shows "\<exists>depths gravity.
           compute_depth_gravity_profiles spline lsoda G pressures densities surface_gravity
             outer_radius = Inr (depths, gravity) \<and>
           depths ! 0 = 0 \<and>
           gravity ! 0 = surface_gravity_roundtrip surface_gravity (fl outer_radius)"
proof -
  have n5: "n_gravity_iterations = Suc 4" by (simp add: n_gravity_iterations_def)
  obtain st where st: "compute_depth_gravity_profiles spline lsoda G pressures densities
      surface_gravity outer_radius = Inr st"
    unfolding compute_depth_gravity_profiles_def
    using gravity_iterations_returns [OF fs ne ld,
        where st = "([], replicate (length pressures) surface_gravity)"]
    by fastforce
  have "first_sample_ok pressures surface_gravity outer_radius st"
    using st n5 gravity_iterations_result [OF ne, where n = 4 and spline = spline
        and lsoda = lsoda and G = G and densities = densities
        and surface_gravity = surface_gravity and outer_radius = outer_radius
        and st = "([], replicate (length pressures) surface_gravity)"]
    unfolding compute_depth_gravity_profiles_def by simp
  then show ?thesis using st by (cases st) (simp add: first_sample_ok_def)
qed

text \<open>
  Claim C4, as amended. For a non-empty pressure sequence and a positive outer radius,
  whenever \<open>compute_depth_gravity_profiles\<close> returns it returns one depth and one gravity
  per pressure, the depth at the first (minimum-pressure) sample is exactly 0, and the
  gravity there is the input surface gravity multiplied twice and divided twice by the outer
  radius in double precision: within a relative error of \<open>2^-50\<close> of the input, not
  necessarily equal to it. It does not return on every valid input: it raises the error of
  any spline fit that fails, in particular that of the first fit, and it returns when the
  fits of as many samples as there are pressures succeed.
\<close>

theorem depth_gravity_first_sample:
  assumes "pressures \<noteq> []" and "0 < outer_radius"
  shows "(case compute_depth_gravity_profiles spline lsoda G pressures densities surface_gravity
                outer_radius of
            Inr (depths, gravity) \<Rightarrow>
              length depths = length pressures \<and> length gravity = length pressures \<and>
              depths ! 0 = 0 \<and>
              gravity ! 0 = surface_gravity_roundtrip surface_gravity (fl outer_radius) \<and>
              \<bar>gravity ! 0 - surface_gravity\<bar> \<le> \<bar>surface_gravity\<bar> / 2 ^ 50
          | Inl e \<Rightarrow> \<exists>xs ys. spline xs ys = Inl e)
       \<and> (\<forall>e. spline pressures densities = Inl e \<longrightarrow>
            compute_depth_gravity_profiles spline lsoda G pressures densities surface_gravity
              outer_radius = Inl e)
       \<and> (length densities = length pressures \<and> fits_succeed spline (length pressures) \<longrightarrow>
            (\<exists>depths gravity.
               compute_depth_gravity_profiles spline lsoda G pressures densities surface_gravity
                 outer_radius = Inr (depths, gravity)))"
proof -
  have r: "fl outer_radius \<noteq> 0" using assms(2) by (simp add: fl_eq_0_iff)
  have n5: "n_gravity_iterations = Suc 4" by (simp add: n_gravity_iterations_def)
  have close: "\<bar>surface_gravity_roundtrip surface_gravity (fl outer_radius) - surface_gravity\<bar>
                 \<le> \<bar>surface_gravity\<bar> / 2 ^ 50"
    by (rule surface_gravity_roundtrip_close [OF r])
  have 1: "case compute_depth_gravity_profiles spline lsoda G pressures densities surface_gravity
                outer_radius of
            Inr (depths, gravity) \<Rightarrow>
              length depths = length pressures \<and> length gravity = length pressures \<and>
              depths ! 0 = 0 \<and>
              gravity ! 0 = surface_gravity_roundtrip surface_gravity (fl outer_radius) \<and>
              \<bar>gravity ! 0 - surface_gravity\<bar> \<le> \<bar>surface_gravity\<bar> / 2 ^ 50
          | Inl e \<Rightarrow> \<exists>xs ys. spline xs ys = Inl e"
    unfolding compute_depth_gravity_profiles_def
    using n5 close gravity_iterations_result [OF assms(1), where n = 4 and spline = spline
        and lsoda = lsoda and G = G and densities = densities
        and surface_gravity = surface_gravity and outer_radius = outer_radius
        and st = "([], replicate (length pressures) surface_gravity)"]
    by (auto simp: first_sample_ok_def split: sum.splits)
  have 2: "\<exists>depths gravity.
               compute_depth_gravity_profiles spline lsoda G pressures densities surface_gravity
                 outer_radius = Inr (depths, gravity)"
    if "length densities = length pressures" "fits_succeed spline (length pressures)"
    using depth_gravity_returns_first [OF assms(1) that] by blast
  have 3: "\<forall>e. spline pressures densities = Inl e \<longrightarrow>
            compute_depth_gravity_profiles spline lsoda G pressures densities surface_gravity
              outer_radius = Inl e"
    using first_fit_fails by blast
  show ?thesis using 1 2 3 by blast
qed

theorem depth_gravity_first_sample_witness:
  "\<exists>depths gravity.
     compute_depth_gravity_profiles spline_linear lsoda_euler (667 / 10 ^ 13)
       [100000, 200000, 300000, 400000] [3000, 3100, 3200, 3300] example_surface_gravity
       example_outer_radius = Inr (depths, gravity) \<and>
     length depths = 4 \<and> length gravity = 4 \<and> depths ! 0 = 0 \<and>
     \<bar>gravity ! 0 - example_surface_gravity\<bar> \<le> \<bar>example_surface_gravity\<bar> / 2 ^ 50"
proof -
  have ne: "[100000, 200000, 300000, 400000 :: real] \<noteq> []"
    and r: "0 < example_outer_radius"
    by (simp_all add: example_outer_radius_def)
  have f: "fits_succeed spline_linear (length [100000, 200000, 300000, 400000 :: real])"
    by (rule spline_linear_fits) simp
  show ?thesis
    using depth_gravity_first_sample [OF ne r, where spline = spline_linear
        and lsoda = lsoda_euler and G = "667 / 10 ^ 13" and densities = "[3000, 3100, 3200, 3300]"
        and surface_gravity = example_surface_gravity] f
    by (auto split: sum.splits)
qed

text \<open>
  Claim C4 as stated fails, twice. Three strictly increasing pressures with positive
  densities are a valid input, and \<open>compute_depth_gravity_profiles\<close> raises on them,
  whatever the fit behind \<open>UnivariateSpline\<close> and the integrator do. And on four samples,
  with the surface gravity 9.8 and the outer radius 6371008.8, it returns for the first
  sample the gravity \<open>9.800000000000002\<close>, one unit in the last place above the input.
\<close>

theorem depth_gravity_first_sample_counterexample:
  "(\<forall>fitpack lsoda G.
      compute_depth_gravity_profiles (UnivariateSpline fitpack) lsoda G
        [100000, 200000, 300000] [3000, 3100, 3200] example_surface_gravity example_outer_radius
        = Inl FitError)
   \<and> (\<exists>depths gravity.
        compute_depth_gravity_profiles (UnivariateSpline spline_linear) lsoda_euler
          (667 / 10 ^ 13) [100000, 200000, 300000, 400000] [3000, 3100, 3200, 3300]
          example_surface_gravity example_outer_radius = Inr (depths, gravity) \<and>
        depths ! 0 = 0 \<and>
        gravity ! 0 = example_surface_gravity + 1 / 2 ^ 49 \<and>
        gravity ! 0 \<noteq> example_surface_gravity)"
proof -
  have 1: "compute_depth_gravity_profiles (UnivariateSpline fitpack) lsoda G
        [100000, 200000, 300000] [3000, 3100, 3200] example_surface_gravity example_outer_radius
        = Inl FitError" for fitpack lsoda G
    by (rule first_fit_fails) (simp add: UnivariateSpline_def)
  have ne: "[100000, 200000, 300000, 400000 :: real] \<noteq> []" by simp
  have ld: "length [3000, 3100, 3200, 3300 :: real] = length [100000, 200000, 300000, 400000 :: real]"
    by simp
  have f: "fits_succeed (UnivariateSpline spline_linear)
             (length [100000, 200000, 300000, 400000 :: real])"
    by (intro UnivariateSpline_fits spline_linear_fits) simp_all
  obtain depths gravity where
    2: "compute_depth_gravity_profiles (UnivariateSpline spline_linear) lsoda_euler
          (667 / 10 ^ 13) [100000, 200000, 300000, 400000] [3000, 3100, 3200, 3300]
          example_surface_gravity example_outer_radius = Inr (depths, gravity)"
      "depths ! 0 = 0"
      "gravity ! 0 = surface_gravity_roundtrip example_surface_gravity (fl example_outer_radius)"
    using depth_gravity_returns_first [OF ne ld f] by blast
  have 3: "gravity ! 0 = example_surface_gravity + 1 / 2 ^ 49"
    using 2(3) by (simp add: example_outer_radius_double example_roundtrip)
  then have 4: "gravity ! 0 \<noteq> example_surface_gravity" by simp
  show ?thesis using 1 2(1,2) 3 4 by blast
qed

subsection \<open>The relaxation grid\<close>

lemma linspace_length: "length (linspace start stop num) = num"
  by (simp add: linspace_def)

lemma linspace_nth:
  "i < num \<Longrightarrow> linspace start stop num ! i = start + real i * ((stop - start) / real (num - 1))"
  by (auto simp: linspace_def)










lemma map2_same: "map2 f (map g xs) (map h xs) = map (\<lambda>x. f (g x) (h x)) xs"
  by (induction xs) simp_all

lemma zip_map_same: "zip (map g xs) (map h xs) = map (\<lambda>x. (g x, h x)) xs"
  by (induction xs) simp_all

lemma evaluate_SV:
  assumes "evaluate [Prop_S, Prop_V] (map g ks) (map h ks) r = Inr vals"
  shows "vals ! 0 = map (\<lambda>k. table r Prop_S (g k) (h k)) ks"
    and "vals ! Suc 0 = map (\<lambda>k. table r Prop_V (g k) (h k)) ks"
  using assms by (auto simp: evaluate_def map2_same split: if_splits)

lemma window_grid_fields:
  assumes w: "window_grid r spl (nP, nT) pstdev factor maxT trunc = Inr g"
  defines "gp \<equiv> linspace (fst (fst (bounds r))) (snd (fst (bounds r))) nP"
    and "gt \<equiv> linspace (fst (snd (bounds r))) (snd (snd (bounds r))) nT"
  defines "pp \<equiv> meshgrid_x gp gt" and "TT \<equiv> meshgrid_y gp gt"
  shows "grid_pressures g = gp" and "grid_temperatures g = gt"
    and "temperature_stdev_of maxT factor pstdev (map spl gp) gp = Inr (temperature_stdev g)"
    and "Tdiff_max g = 50 + 30 + trunc * temperature_stdev g"
    and "mask g = map fst (filter (\<lambda>(idx, Td). Td < Tdiff_max g)
                            (enumerate 0 (map2 (\<lambda>P T. \<bar>spl P - T\<bar>) pp TT)))"
    and "evaluated g = map (\<lambda>k. (pp ! k, TT ! k)) (mask g)"
    and "grid_entropies g = reshape nT nP (assign_at (replicate (length pp) 0) (mask g)
                               (map (\<lambda>k. table r Prop_S (pp ! k) (TT ! k)) (mask g)))"
    and "grid_volumes g = reshape nT nP (assign_at (replicate (length pp) 0) (mask g)
                               (map (\<lambda>k. table r Prop_V (pp ! k) (TT ! k)) (mask g)))"
proof -
  obtain tstdev where ts: "temperature_stdev_of maxT factor pstdev (map spl gp) gp = Inr tstdev"
    using w unfolding window_grid_def Let_def gp_def by (auto split: sum.splits)
  define Tmax where "Tmax = 50 + 30 + trunc * tstdev"
  define msk where "msk = map fst (filter (\<lambda>(idx, Td). Td < Tmax)
                            (enumerate 0 (map2 (\<lambda>P T. \<bar>spl P - T\<bar>) pp TT)))"
  obtain vals where ev: "evaluate [Prop_S, Prop_V] (map (\<lambda>idx. pp ! idx) msk)
        (map (\<lambda>idx. TT ! idx) msk) r = Inr vals"
    using w ts unfolding window_grid_def Let_def gp_def gt_def pp_def TT_def msk_def Tmax_def
    by (auto split: sum.splits)
  have g: "g = \<lparr>grid_pressures = gp, grid_temperatures = gt,
                temperature_stdev = tstdev, Tdiff_max = Tmax, mask = msk,
                evaluated = zip (map (\<lambda>idx. pp ! idx) msk) (map (\<lambda>idx. TT ! idx) msk),
                grid_entropies =
                  reshape (length gt) (length gp) (assign_at (replicate (length pp) 0) msk (vals ! 0)),
                grid_volumes =
                  reshape (length gt) (length gp) (assign_at (replicate (length pp) 0) msk (vals ! 1))\<rparr>"
    using w ts ev unfolding window_grid_def Let_def gp_def gt_def pp_def TT_def msk_def Tmax_def
    by simp
  note v = evaluate_SV [OF ev]
  have l: "length gt = nT" "length gp = nP" by (simp_all add: gt_def gp_def linspace_length)
  show "grid_pressures g = gp" "grid_temperatures g = gt" by (simp_all add: g)
  show "temperature_stdev_of maxT factor pstdev (map spl gp) gp = Inr (temperature_stdev g)"
    by (simp add: g ts)
  show "Tdiff_max g = 50 + 30 + trunc * temperature_stdev g" by (simp add: g Tmax_def)
  show "mask g = map fst (filter (\<lambda>(idx, Td). Td < Tdiff_max g)
                            (enumerate 0 (map2 (\<lambda>P T. \<bar>spl P - T\<bar>) pp TT)))"
    by (simp add: g msk_def)
  show "evaluated g = map (\<lambda>k. (pp ! k, TT ! k)) (mask g)" by (simp add: g zip_map_same)
  show "grid_entropies g = reshape nT nP (assign_at (replicate (length pp) 0) (mask g)
                               (map (\<lambda>k. table r Prop_S (pp ! k) (TT ! k)) (mask g)))"
    by (simp add: g v l)
  show "grid_volumes g = reshape nT nP (assign_at (replicate (length pp) 0) (mask g)
                               (map (\<lambda>k. table r Prop_V (pp ! k) (TT ! k)) (mask g)))"
    by (simp add: g v l)
qed











subsection \<open>The output table\<close>

lemma decimal_exponent_eq:
  assumes "10 powi k \<le> \<bar>x\<bar>" and "\<bar>x\<bar> < 10 powi (k + 1)"
  shows "decimal_exponent x = k"
proof -
  have "(0::real) < 10 powi k" by simp
  then have pos: "0 < \<bar>x\<bar>" using assms(1) by linarith
  have p: "(10::real) powr real_of_int j = 10 powi j" for j
    by (simp add: powr_real_of_int')
  have "(10::real) powr (real_of_int k + 1) = 10 powi (k + 1)" using p [of "k + 1"] by simp
  then have "\<lfloor>log 10 \<bar>x\<bar>\<rfloor> = k"
    using assms pos p [of k] floor_log_eq_powr_iff [of "\<bar>x\<bar>" 10 k] by simp
  then show ?thesis using pos by (simp add: decimal_exponent_def)
qed

lemma digits_fixed_numeral:
  "digits_fixed (numeral k) m = digits_fixed (pred_numeral k) (m div 10) @ [digit_char (m mod 10)]"
  by (simp only: numeral_eq_Suc [of k] digits_fixed.simps)

lemma digit_char_simps:
  "digit_char 0 = CHR ''0''" "digit_char 1 = CHR ''1''" "digit_char (Suc 0) = CHR ''1''"
  "digit_char 2 = CHR ''2''"
  "digit_char 3 = CHR ''3''" "digit_char 4 = CHR ''4''" "digit_char 5 = CHR ''5''"
  "digit_char 6 = CHR ''6''" "digit_char 7 = CHR ''7''" "digit_char 8 = CHR ''8''"
  "digit_char 9 = CHR ''9''"
  by (simp_all add: digit_char_def eval_nat_numeral)

lemma interp_columns_Inr:
  "interp_columns xs xp fps = Inr cols
     \<Longrightarrow> cols = map (\<lambda>fp. map (\<lambda>x. np_interp1 x xp fp) xs) fps"
proof (induction fps arbitrary: cols)
  case Nil
  then show ?case by simp
next
  case (Cons fp fps)
  then show ?case
    by (auto simp: np_interp_def split: sum.splits if_splits)
qed

lemma update_plot_table_rows:
  assumes "update_plot_table spline pressures n_points prof = Inr X"
  shows "\<exists>p_spline. spline (rp_depths prof) pressures = Inr p_spline \<and> rp_depths prof \<noteq> [] \<and>
           X = map (\<lambda>i. table_row p_spline pressures prof
                          (linspace (hd (rp_depths prof)) (last (rp_depths prof)) n_points ! i))
                 [0..<n_points]"
proof (cases "spline (rp_depths prof) pressures")
  case (Inl e)
  then show ?thesis using assms by (simp add: update_plot_table_def)
next
  case sp: (Inr p_spline)
  show ?thesis
  proof (cases "rp_depths prof")
    case Nil
    then show ?thesis using assms sp by (simp add: update_plot_table_def)
  next
    case d: (Cons d0 ds)
    define depths_eq where "depths_eq = linspace d0 (last (d0 # ds)) n_points"
    define pressures_eq where "pressures_eq = map p_spline depths_eq"
    define fps where "fps = [rp_smoothed_temperatures prof, rp_densities prof, rp_gravity prof,
                           rp_alphas_relaxed prof, rp_specific_heats_relaxed prof,
                           rp_compressibilities_relaxed prof, rp_Vss prof, rp_Vps prof,
                           rp_dVsdT prof, rp_dVpdT prof]"
    have sp': "spline (d0 # ds) pressures = Inr p_spline" using sp d by simp
    have unf: "update_plot_table spline pressures n_points prof =
        (case interp_columns pressures_eq pressures fps of
           Inl e \<Rightarrow> Inl e
         | Inr cols \<Rightarrow>
             Inr (map (\<lambda>i. map (\<lambda>col. col ! i) (depths_eq # pressures_eq # cols)) [0..<n_points]))"
      unfolding update_plot_table_def Let_def depths_eq_def pressures_eq_def fps_def d sp'
      by (simp only: sum.case list.case)
    show ?thesis
    proof (cases "interp_columns pressures_eq pressures fps")
      case (Inl e)
      then show ?thesis using assms unf by simp
    next
      case c: (Inr cols)
      have X: "X = map (\<lambda>i. map (\<lambda>col. col ! i) (depths_eq # pressures_eq # cols)) [0..<n_points]"
        using assms unf c by simp
      have cols: "cols = map (\<lambda>fp. map (\<lambda>x. np_interp1 x pressures fp) pressures_eq) fps"
        by (rule interp_columns_Inr [OF c])
      have l: "length depths_eq = n_points" by (simp add: depths_eq_def linspace_length)
      have row: "map (\<lambda>col. col ! i) (depths_eq # pressures_eq # cols)
          = table_row p_spline pressures prof (depths_eq ! i)" if "i < n_points" for i
        unfolding cols fps_def pressures_eq_def table_row_def Let_def using that l by simp
      have "X = map (\<lambda>i. table_row p_spline pressures prof (depths_eq ! i)) [0..<n_points]"
        unfolding X by (rule map_cong) (use row in simp_all)
      then show ?thesis using sp d by (simp add: depths_eq_def)
    qed
  qed
qed

lemma round_half_even_ge: "of_int a \<le> x \<Longrightarrow> a \<le> round_half_even x"
proof -
  assume "of_int a \<le> x"
  then have "a \<le> \<lfloor>x\<rfloor>" by (simp add: le_floor_iff)
  then show ?thesis by (simp add: round_half_even_def Let_def)
qed

lemma round_half_even_le: "x \<le> of_int b \<Longrightarrow> round_half_even x \<le> b"
proof (cases "x = of_int b")
  case True
  then show ?thesis by (simp add: round_half_even_def Let_def)
next
  case False
  assume "x \<le> of_int b"
  then have "x < of_int b" using False by simp
  then have "\<lfloor>x\<rfloor> < b" by (simp add: floor_less_iff)
  then show ?thesis by (simp add: round_half_even_def Let_def)
qed

lemma decimal_exponent_bounds:
  assumes "x \<noteq> 0"
  shows "10 powi decimal_exponent x \<le> \<bar>x\<bar>" and "\<bar>x\<bar> < 10 powi (decimal_exponent x + 1)"
proof -
  have pos: "0 < \<bar>x\<bar>" using assms by simp
  define k where "k = \<lfloor>log 10 \<bar>x\<bar>\<rfloor>"
  have p: "(10::real) powr real_of_int j = 10 powi j" for j
    by (simp add: powr_real_of_int')
  have p1: "(10::real) powr (real_of_int k + 1) = 10 powi (k + 1)" using p [of "k + 1"] by simp
  have "10 powr real_of_int k \<le> \<bar>x\<bar> \<and> \<bar>x\<bar> < 10 powr (real_of_int k + 1)"
    using floor_log_eq_powr_iff [of "\<bar>x\<bar>" 10 k] pos k_def by simp
  then have "10 powi k \<le> \<bar>x\<bar>" "\<bar>x\<bar> < 10 powi (k + 1)" using p [of k] p1 by simp_all
  moreover have "decimal_exponent x = k" using assms by (simp add: decimal_exponent_def k_def)
  ultimately show "10 powi decimal_exponent x \<le> \<bar>x\<bar>"
    and "\<bar>x\<bar> < 10 powi (decimal_exponent x + 1)" by simp_all
qed

lemma e10_parts_mantissa:
  "fst (e10_parts x) < 10 ^ 11" and "x \<noteq> 0 \<Longrightarrow> 10 ^ 10 \<le> fst (e10_parts x)"
proof -
  define e where "e = decimal_exponent x"
  define q where "q = \<bar>x\<bar> / 10 powi e"
  define y where "y = q * 10 ^ 10"
  define m where "m = nat (round_half_even y)"
  have parts: "e10_parts x = (if m \<ge> 10 ^ 11 then (m div 10, e + 1) else (m, e))"
    by (simp add: e10_parts_def Let_def e_def y_def q_def m_def)
  have ppos: "(0::real) < 10 powi e" by simp
  have up: "m \<le> 10 ^ 11" and lo: "x \<noteq> 0 \<Longrightarrow> 10 ^ 10 \<le> m"
  proof -
    show "m \<le> 10 ^ 11"
    proof (cases "x = 0")
      case True
      then show ?thesis by (simp add: m_def y_def q_def round_half_even_def)
    next
      case False
      have "\<bar>x\<bar> < 10 powi (e + 1)" using decimal_exponent_bounds(2) [OF False] by (simp add: e_def)
      also have "\<dots> = 10 * 10 powi e" by (simp add: power_int_add)
      finally have "q < 10" unfolding q_def using ppos by (simp add: pos_divide_less_eq)
      then have "y \<le> of_int (10 ^ 11)" unfolding y_def by simp
      then have "round_half_even y \<le> 10 ^ 11" by (rule round_half_even_le)
      then show ?thesis by (simp add: m_def)
    qed
    show "10 ^ 10 \<le> m" if "x \<noteq> 0"
    proof -
      have "10 powi e \<le> \<bar>x\<bar>" using decimal_exponent_bounds(1) [OF that] by (simp add: e_def)
      then have "1 \<le> q" unfolding q_def using ppos by (simp add: pos_le_divide_eq)
      then have "of_int (10 ^ 10) \<le> y" unfolding y_def by simp
      then have "10 ^ 10 \<le> round_half_even y" by (rule round_half_even_ge)
      then show ?thesis by (simp add: m_def)
    qed
  qed
  show "fst (e10_parts x) < 10 ^ 11"
  proof (cases "m \<ge> 10 ^ 11")
    case True
    then have "m = 10 ^ 11" using up by simp
    then show ?thesis by (simp add: parts)
  next
    case False
    then show ?thesis by (simp add: parts)
  qed
  show "10 ^ 10 \<le> fst (e10_parts x)" if "x \<noteq> 0"
  proof (cases "m \<ge> 10 ^ 11")
    case True
    then have "m = 10 ^ 11" using up by simp
    then show ?thesis by (simp add: parts)
  next
    case False
    then show ?thesis using lo [OF that] by (simp add: parts)
  qed
qed

lemma is_digit_not_e: "is_digit c \<Longrightarrow> c \<noteq> CHR ''e''"
  by (auto simp: is_digit_def)

lemma digit_char_is_digit: "d < 10 \<Longrightarrow> is_digit (digit_char d)"
proof -
  assume "d < 10"
  then have "d < length ''0123456789''" by simp
  then have "''0123456789'' ! d \<in> set ''0123456789''" by (rule nth_mem)
  then show ?thesis by (simp only: is_digit_def digit_char_def)
qed

lemma digits_fixed_props:
  "length (digits_fixed k m) = k \<and> list_all is_digit (digits_fixed k m)"
  by (induction k arbitrary: m) (simp_all add: digit_char_is_digit)

lemma str_nat_props:
  "list_all is_digit (str_nat n) \<and> 1 \<le> length (str_nat n) \<and> (10 \<le> n \<longrightarrow> 2 \<le> length (str_nat n))"
proof (induction n rule: str_nat.induct)
  case (1 n)
  show ?case
  proof (cases "n < 10")
    case True
    have "str_nat n = [digit_char n]" using True by (subst str_nat.simps) simp
    then show ?thesis using True by (simp add: digit_char_is_digit)
  next
    case False
    have d: "is_digit (digit_char (n mod 10))" by (simp add: digit_char_is_digit)
    have ih: "list_all is_digit (str_nat (n div 10))" "1 \<le> length (str_nat (n div 10))"
      using 1 [OF False] by simp_all
    have eq: "str_nat n = str_nat (n div 10) @ [digit_char (n mod 10)]"
      using False by (subst str_nat.simps) simp
    show ?thesis unfolding eq using d ih by simp
  qed
qed

lemma fmt_e10_format: "e10_format (fmt_e10 x)"
proof -
  obtain m e where me: "e10_parts x = (m, e)" by (cases "e10_parts x")
  have m: "m < 10 ^ 11" using e10_parts_mantissa(1) [of x] me by simp
  have "m div 10 ^ 10 < 10" using m by (simp add: less_mult_imp_div_less)
  then have lead: "is_digit (digit_char (m div 10 ^ 10))" by (rule digit_char_is_digit)
  define edigits where "edigits = (if \<bar>e\<bar> < 10 then ''0'' else []) @ str_nat (nat \<bar>e\<bar>)"
  have z: "is_digit (CHR ''0'')" by (simp add: is_digit_def)
  have ed: "2 \<le> length edigits \<and> list_all is_digit edigits"
  proof (cases "\<bar>e\<bar> < 10")
    case True
    then show ?thesis using str_nat_props [of "nat \<bar>e\<bar>"] z by (simp add: edigits_def)
  next
    case False
    then have "10 \<le> nat \<bar>e\<bar>" by simp
    then show ?thesis using str_nat_props [of "nat \<bar>e\<bar>"] False by (simp add: edigits_def)
  qed
  have f: "fmt_e10 x = (if x < 0 then ''-'' else []) @ [digit_char (m div 10 ^ 10)] @ ''.''
         @ digits_fixed 10 (m mod 10 ^ 10) @ ''e'' @ [if e < 0 then CHR ''-'' else CHR ''+'']
         @ edigits"
    by (simp add: fmt_e10_def me edigits_def)
  have "\<exists>sign d frac esign edigits.
        fmt_e10 x = sign @ [d] @ ''.'' @ frac @ ''e'' @ [esign] @ edigits \<and>
        (sign = [] \<or> sign = ''-'') \<and> is_digit d \<and>
        length frac = 10 \<and> list_all is_digit frac \<and>
        (esign = CHR ''+'' \<or> esign = CHR ''-'') \<and>
        2 \<le> length edigits \<and> list_all is_digit edigits"
    apply (rule exI [of _ "if x < 0 then ''-'' else []"])
    apply (rule exI [of _ "digit_char (m div 10 ^ 10)"])
    apply (rule exI [of _ "digits_fixed 10 (m mod 10 ^ 10)"])
    apply (rule exI [of _ "if e < 0 then CHR ''-'' else CHR ''+''"])
    apply (rule exI [of _ edigits])
    using lead ed digits_fixed_props [of 10 "m mod 10 ^ 10"] by (simp add: f)
  then show ?thesis unfolding e10_format_def .
qed

lemma e10_format_digits: "e10_format s \<Longrightarrow> significant_digits s = 11"
proof -
  assume "e10_format s"
  then obtain sign d frac esign edigits where
    s: "s = sign @ [d] @ ''.'' @ frac @ ''e'' @ [esign] @ edigits"
    and sg: "sign = [] \<or> sign = ''-''" and d: "is_digit d"
    and fr: "length frac = 10" "list_all is_digit frac"
    unfolding e10_format_def by blast
  define pre where "pre = sign @ [d] @ ''.'' @ frac"
  have minus: "\<not> is_digit (CHR ''-'')" and dot: "\<not> is_digit (CHR ''.'')"
    by (simp_all add: is_digit_def)
  have sign_ne: "c \<noteq> CHR ''e''" if "c \<in> set sign" for c
  proof -
    from sg that have "c = CHR ''-''" by (cases "sign = []") simp_all
    then show ?thesis by simp
  qed
  have frac_ne: "c \<noteq> CHR ''e''" if "c \<in> set frac" for c
  proof -
    have "is_digit c" using fr(2) that by (simp add: list_all_iff)
    then show ?thesis by (rule is_digit_not_e)
  qed
  have d_ne: "d \<noteq> CHR ''e''" using d by (rule is_digit_not_e)
  have ne: "c \<noteq> CHR ''e''" if "c \<in> set pre" for c
  proof -
    from that have "c \<in> set sign \<or> c = d \<or> c = CHR ''.'' \<or> c \<in> set frac"
      unfolding pre_def by auto
    then show ?thesis using sign_ne frac_ne d_ne by blast
  qed
  have s': "s = pre @ CHR ''e'' # ([esign] @ edigits)" unfolding s pre_def by simp
  have "takeWhile (\<lambda>c. c \<noteq> CHR ''e'') (pre @ CHR ''e'' # ([esign] @ edigits))
          = pre @ takeWhile (\<lambda>c. c \<noteq> CHR ''e'') (CHR ''e'' # ([esign] @ edigits))"
    by (rule takeWhile_append2) (rule ne)
  then have tw: "takeWhile (\<lambda>c. c \<noteq> CHR ''e'') s = pre" unfolding s' by simp
  have ff: "filter is_digit frac = frac" using fr(2) by (simp add: list_all_iff)
  have fs: "filter is_digit sign = []"
  proof (cases "sign = []")
    case True
    then show ?thesis by simp
  next
    case False
    then have "sign = ''-''" using sg by simp
    then show ?thesis using minus by simp
  qed
  have "filter is_digit pre = d # frac" unfolding pre_def using ff fs dot d by simp
  then have "length (filter is_digit pre) = 11" using fr(1) by simp
  then show ?thesis unfolding significant_digits_def tw .
qed

lemma linspace_last:
  "2 \<le> num \<Longrightarrow> linspace start stop num ! (num - 1) = stop"
proof -
  assume n: "2 \<le> num"
  then have "real (num - 1) \<noteq> 0" by simp
  then have "real (num - 1) * ((stop - start) / real (num - 1)) = stop - start" by simp
  then show ?thesis using n by (simp add: linspace_nth)
qed

lemma table_row_length: "length (table_row p_spline pressures prof d) = 12"
  by (simp add: table_row_def Let_def)

lemma table_row_depth: "table_row p_spline pressures prof d ! 0 = d"
  by (simp add: table_row_def Let_def)

lemma example_table:
  "update_plot_table spline_linear [100000, 100100000, 200100000, 300100000] 2 example_profile
     = Inr [[0, 100000, 1550, 3300, 981 / 100, 3 / 100000, 1200, 1 / 100000000000,
             4500, 8000, - (1 / 3), - (1 / 2)],
            [9000, 300100000, 1580, 3330, 491 / 50, 3 / 100000, 1200, 1 / 100000000000,
             4530, 8030, - (1 / 3), - (1 / 2)]]"
  by (simp add: update_plot_table_def spline_linear_def example_profile_def linspace_def
      np_interp_def np_interp1_def upt_conv_Cons Let_def del: upt_Suc)

lemma fmt_e10_gravity: "fmt_e10 (981 / 100) = ''9.8100000000e+00''"
proof -
  have "decimal_exponent (981 / 100) = 0" by (rule decimal_exponent_eq) simp_all
  then show ?thesis
    by (simp add: fmt_e10_def e10_parts_def round_half_even_def digit_char_simps
        str_nat.simps [of 0] digits_fixed_numeral Let_def)
qed

text \<open>
  Claim C10. Before the file is written every column is resampled onto \<open>n_points\<close>
  depths equally spaced between the first and the last computed depth: the pressure column
  by the spline from depth to pressure, every property column by \<open>np.interp\<close> at that
  pressure. The rows of the table are equally spaced in depth; the depth of the first row is
  the first computed depth and the depth of the last row the last computed depth.
\<close>

theorem resampled_rows_equally_spaced:
  assumes "update_plot_table spline pressures n_points prof = Inr X" and "2 \<le> n_points"
  shows "length X = n_points
       \<and> (\<exists>p_spline. spline (rp_depths prof) pressures = Inr p_spline \<and>
            (\<forall>i < n_points.
               X ! i = table_row p_spline pressures prof
                         (hd (rp_depths prof)
                          + real i * ((last (rp_depths prof) - hd (rp_depths prof))
                                        / real (n_points - 1)))))
       \<and> X ! 0 ! 0 = hd (rp_depths prof)
       \<and> X ! (n_points - 1) ! 0 = last (rp_depths prof)
       \<and> (\<forall>i. Suc i < n_points \<longrightarrow>
            X ! Suc i ! 0 - X ! i ! 0
              = (last (rp_depths prof) - hd (rp_depths prof)) / real (n_points - 1))"
proof -
  let ?D = "rp_depths prof"
  define step where "step = (last ?D - hd ?D) / real (n_points - 1)"
  obtain p_spline where sp: "spline ?D pressures = Inr p_spline"
    and X: "X = map (\<lambda>i. table_row p_spline pressures prof
                          (linspace (hd ?D) (last ?D) n_points ! i)) [0..<n_points]"
    using update_plot_table_rows [OF assms(1)] by blast
  have len: "length X = n_points" by (simp add: X)
  have row: "X ! i = table_row p_spline pressures prof (hd ?D + real i * step)"
    if "i < n_points" for i
    using that unfolding step_def by (simp add: X linspace_nth)
  have d: "X ! i ! 0 = hd ?D + real i * step" if "i < n_points" for i
    using row [OF that] by (simp add: table_row_depth)
  have first: "X ! 0 ! 0 = hd ?D" using d [of 0] assms(2) by simp
  have "X ! (n_points - 1) ! 0 = linspace (hd ?D) (last ?D) n_points ! (n_points - 1)"
    using assms(2) by (simp add: X table_row_depth)
  then have last: "X ! (n_points - 1) ! 0 = last ?D" using linspace_last [OF assms(2)] by simp
  have diff: "X ! Suc i ! 0 - X ! i ! 0 = step" if "Suc i < n_points" for i
  proof -
    have "i < n_points" using that by simp
    then have "X ! i ! 0 = hd ?D + real i * step" by (rule d)
    moreover have "X ! Suc i ! 0 = hd ?D + real (Suc i) * step" using that by (rule d)
    ultimately show ?thesis by (simp add: algebra_simps)
  qed
  show ?thesis using len sp row first last diff unfolding step_def by blast
qed

theorem resampled_rows_equally_spaced_witness:
  "\<exists>X. update_plot_table spline_linear [100000, 100100000, 200100000, 300100000] 2 example_profile
          = Inr X \<and> length X = 2 \<and> X ! 0 ! 0 = 0 \<and> X ! 1 ! 0 = 9000"
proof -
  have n: "(2 :: nat) \<le> 2" by simp
  have D: "hd (rp_depths example_profile) = 0" "last (rp_depths example_profile) = 9000"
    by (simp_all add: example_profile_def)
  show ?thesis
    using resampled_rows_equally_spaced [OF example_table n] example_table D by simp
qed

text \<open>
  Claim C6, as amended. The file is the header block (which names the point count and the
  columns) followed by one line per row of the table; every row has exactly the twelve
  columns depth, pressure, temperature, density, gravity, thermal expansivity, specific
  heat, compressibility, shear-wave velocity, P-wave velocity, dVs/dT, dVp/dT, in this
  order, joined by tabs; and every value is printed by \<open>%.10e\<close>, in exponential notation
  with one digit before and ten digits after the decimal point, that is with eleven
  significant digits.
\<close>

theorem output_file_rows:
  assumes "update_plot_table spline pressures n_points prof = Inr X"
  shows "update_plot_file spline pressures n_points prof
           = Inr (outfile_header n_points @ [newline]
                  @ concat (map (\<lambda>row. join [tab] (map fmt_e10 row) @ [newline]) X))
       \<and> length X = n_points
       \<and> (\<exists>p_spline. spline (rp_depths prof) pressures = Inr p_spline \<and>
            (\<forall>row \<in> set X. \<exists>d. row = table_row p_spline pressures prof d))
       \<and> (\<forall>row \<in> set X. length row = 12 \<and>
            (\<forall>v \<in> set row. e10_format (fmt_e10 v) \<and> significant_digits (fmt_e10 v) = 11))"
proof -
  obtain p_spline where sp: "spline (rp_depths prof) pressures = Inr p_spline"
    and X: "X = map (\<lambda>i. table_row p_spline pressures prof
                  (linspace (hd (rp_depths prof)) (last (rp_depths prof)) n_points ! i))
                [0..<n_points]"
    using update_plot_table_rows [OF assms] by blast
  have 1: "update_plot_file spline pressures n_points prof
           = Inr (outfile_header n_points @ [newline]
                  @ concat (map (\<lambda>row. join [tab] (map fmt_e10 row) @ [newline]) X))"
    using assms by (simp add: update_plot_file_def savetxt_def format_row_def)
  have 2: "length X = n_points" by (simp add: X)
  have 3: "\<exists>d. row = table_row p_spline pressures prof d" if "row \<in> set X" for row
    using that unfolding X by auto
  have 4: "length row = 12" if "row \<in> set X" for row
    using 3 [OF that] table_row_length by auto
  have 5: "e10_format (fmt_e10 v) \<and> significant_digits (fmt_e10 v) = 11" for v
    using fmt_e10_format [of v] e10_format_digits by blast
  show ?thesis using 1 2 sp 3 4 5 by blast
qed

theorem output_file_rows_witness:
  "update_plot_file spline_linear [100000, 100100000, 200100000, 300100000] 2 example_profile
     = Inr (outfile_header 2 @ [newline]
            @ concat (map (\<lambda>row. join [tab] (map fmt_e10 row) @ [newline])
                [[0, 100000, 1550, 3300, 981 / 100, 3 / 100000, 1200, 1 / 100000000000,
                  4500, 8000, - (1 / 3), - (1 / 2)],
                 [9000, 300100000, 1580, 3330, 491 / 50, 3 / 100000, 1200, 1 / 100000000000,
                  4530, 8030, - (1 / 3), - (1 / 2)]]))
   \<and> significant_digits (fmt_e10 (981 / 100)) = 11"
  using output_file_rows [OF example_table] by simp

text \<open>
  Claim C6 as stated fails in the number of digits: the gravity 9.81 of the first row of
  the example table is written \<open>9.8100000000e+00\<close>, with eleven significant digits, not ten.
\<close>

theorem ten_significant_digits_counterexample:
  "(\<exists>X. update_plot_table spline_linear [100000, 100100000, 200100000, 300100000] 2
           example_profile = Inr X \<and> X ! 0 ! 4 = 981 / 100)
   \<and> fmt_e10 (981 / 100) = ''9.8100000000e+00''
   \<and> significant_digits (fmt_e10 (981 / 100)) = 11
   \<and> significant_digits (fmt_e10 (981 / 100)) \<noteq> 10"
proof -
  have "significant_digits (fmt_e10 (981 / 100)) = 11"
    using fmt_e10_format [of "981 / 100"] by (rule e10_format_digits)
  then show ?thesis using example_table fmt_e10_gravity by simp
qed

subsection \<open>Smoothing at zero width\<close>

text \<open>
  The unsmoothed isentropes of the two example evaluators at the potential temperature 1550
  differ by 2 K at the two interior profile pressures; the relaxation grids built from them
  are the same, since the grid has nodes only at the two ends of the pressure range, where
  the evaluators agree. (At these two pressures the linear interpolant used for the spline
  takes the value 1550 of the data, as does a cubic through the four points.)
\<close>

lemma plain_reference:
  "reference_isentrope spline_linear rock_plain 1550 300100000 4
     = (Inr (1550, example_pressures, [1550, 1550, 1550, 1550],
             \<lambda>x. np_interp1 x example_pressures [1550, 1550, 1550, 1550]),
        rock_plain\<lparr>state := Some (300100000, 1550)\<rparr>)"
  by (simp add: reference_isentrope_def isentrope_def rock_plain_def brent_defs
      brentq_loop_numeral linspace_def spline_linear_def example_pressures_def
      upt_conv_Cons del: upt_Suc)

lemma bowed_reference:
  "reference_isentrope spline_linear rock_bowed 1550 300100000 4
     = (Inr (1550, example_pressures, [1550, 1548, 1548, 1550],
             \<lambda>x. np_interp1 x example_pressures [1550, 1548, 1548, 1550]),
        rock_bowed\<lparr>state := Some (300100000, 1550)\<rparr>)"
  by (simp add: reference_isentrope_def isentrope_def rock_bowed_def brent_defs
      brentq_loop_numeral linspace_def spline_linear_def example_pressures_def
      upt_conv_Cons del: upt_Suc)

lemmas grid_defs = window_grid_def linspace_def meshgrid_x_def meshgrid_y_def
  temperature_stdev_of_def np_gradient_def np_max_def evaluate_def assign_at_def reshape_def
  enumerate_eq_zip np_interp1_def example_pressures_def example_window_def Let_def

lemma plain_window:
  "window_grid (rock_plain\<lparr>state := Some (300100000, 1550)\<rparr>)
     (\<lambda>x. np_interp1 x example_pressures [1550, 1550, 1550, 1550]) (2, 5) 0 (1 / 4) 30 4
     = Inr example_window"
  by (simp add: grid_defs rock_plain_def upt_conv_Cons del: upt_Suc)

lemma bowed_window:
  "window_grid (rock_bowed\<lparr>state := Some (300100000, 1550)\<rparr>)
     (\<lambda>x. np_interp1 x example_pressures [1550, 1548, 1548, 1550]) (2, 5) 0 (1 / 4) 30 4
     = Inr example_window"
  by (simp add: grid_defs rock_bowed_def upt_conv_Cons del: upt_Suc)

lemma assemble_profile_temperatures:
  assumes "assemble_profile lib r surface_gravity outer_radius pressures smoothed_temperatures
             S_interps V_interps = Inr prof"
  shows "rp_smoothed_temperatures prof = smoothed_temperatures"
proof -
  obtain S1 S2 S3 where S: "S_interps = (S1, S2, S3)" by (cases S_interps)
  obtain V1 V2 V3 where V: "V_interps = (V1, V2, V3)" by (cases V_interps)
  show ?thesis
    using assms unfolding assemble_profile_def Let_def S V
    by (auto split: sum.splits prod.splits)
qed

lemma relaxed_profile_stages:
  assumes "relaxed_profile lib r potential_temperature max_pressure surface_gravity outer_radius
             n_points n_gridpoints pressure_stdev temperature_smoothing_factor
             max_temperature_stdev truncate' min_grid_temperature max_grid_temperature
           = (Inr prof, r')"
  shows "\<exists>entropy pressures temperatures isentrope_spline g S_interps V_interps.
           reference_isentrope (lib_spline lib) r potential_temperature max_pressure n_points
             = (Inr (entropy, pressures, temperatures, isentrope_spline), r') \<and>
           window_grid r' isentrope_spline n_gridpoints pressure_stdev
             temperature_smoothing_factor max_temperature_stdev truncate' = Inr g \<and>
           smoothed_fields (lib_smoother lib) g pressure_stdev truncate'
             = Inr (S_interps, V_interps) \<and>
           interp_isentrope (lib_hybrd lib) (fst S_interps) pressures entropy
             potential_temperature = Inr (rp_smoothed_temperatures prof)"
proof -
  obtain res r1 where ref: "reference_isentrope (lib_spline lib) r potential_temperature
      max_pressure n_points = (res, r1)"
    by (cases "reference_isentrope (lib_spline lib) r potential_temperature max_pressure n_points")
  obtain entropy pressures temperatures isentrope_spline where
    res: "res = Inr (entropy, pressures, temperatures, isentrope_spline)"
    using assms ref unfolding relaxed_profile_def by (cases res) auto
  obtain g where g: "window_grid r1 isentrope_spline n_gridpoints pressure_stdev
             temperature_smoothing_factor max_temperature_stdev truncate' = Inr g"
    using assms ref res unfolding relaxed_profile_def
    by (cases "window_grid r1 isentrope_spline n_gridpoints pressure_stdev
             temperature_smoothing_factor max_temperature_stdev truncate'") auto
  obtain S_interps V_interps where
    f: "smoothed_fields (lib_smoother lib) g pressure_stdev truncate' = Inr (S_interps, V_interps)"
    using assms ref res g unfolding relaxed_profile_def
    by (cases "smoothed_fields (lib_smoother lib) g pressure_stdev truncate'") auto
  obtain smoothed where
    sm: "interp_isentrope (lib_hybrd lib) (fst S_interps) pressures entropy
           potential_temperature = Inr smoothed"
    using assms ref res g f unfolding relaxed_profile_def
    by (cases "interp_isentrope (lib_hybrd lib) (fst S_interps) pressures entropy
           potential_temperature") auto
  have ar: "assemble_profile lib r1 surface_gravity outer_radius pressures smoothed
             S_interps V_interps = Inr prof \<and> r' = r1"
    using assms ref res g f sm unfolding relaxed_profile_def by auto
  then have a: "assemble_profile lib r1 surface_gravity outer_radius pressures smoothed
             S_interps V_interps = Inr prof" and r': "r' = r1" by blast+
  have "rp_smoothed_temperatures prof = smoothed" by (rule assemble_profile_temperatures [OF a])
  then show ?thesis using ref res g f sm r' by blast
qed


lemma temperature_stdev_zero:
  assumes "temperature_stdev_of max_temperature_stdev temperature_smoothing_factor 0 u gp = Inr t"
    and "0 \<le> max_temperature_stdev"
  shows "t = 0"
  using assms
  by (auto simp: temperature_stdev_of_def split: sum.splits if_splits)

lemma identity_run_smoothed:
  assumes z: "zero_width_identity
             \<lparr>lib_spline = spline_linear, lib_lsoda = l, lib_hybrd = h, lib_smoother = sm,
              lib_G = G\<rparr> r 1550 300100000 g0 r0 4 (2, 5) (1 / 4) 30 4"
    and ref: "reference_isentrope spline_linear r 1550 300100000 4
                = (Inr (1550, example_pressures, ts, spl), r1)"
    and win: "window_grid r1 spl (2, 5) 0 (1 / 4) 30 4 = Inr example_window"
  shows "\<exists>S_interps V_interps smoothed.
           smoothed_fields sm example_window 0 4 = Inr (S_interps, V_interps) \<and>
           interp_isentrope h (fst S_interps) example_pressures 1550 1550 = Inr smoothed \<and>
           list_all2 (\<lambda>Ts T. \<bar>Ts - T\<bar> < brentq_xtol + brentq_rtol * \<bar>T\<bar>) smoothed ts"
proof -
  let ?lib = "\<lparr>lib_spline = spline_linear, lib_lsoda = l, lib_hybrd = h, lib_smoother = sm,
              lib_G = G\<rparr>"
  obtain prof r' where
    rp: "relaxed_profile ?lib r 1550 300100000 g0 r0 4 (2, 5) 0 (1 / 4) 30 4 0 0 = (Inr prof, r')"
    and close: "list_all2 (\<lambda>Ts T. \<bar>Ts - T\<bar> < brentq_xtol + brentq_rtol * \<bar>T\<bar>)
                  (rp_smoothed_temperatures prof) ts"
    using z ref unfolding zero_width_identity_def by auto
  obtain entropy pressures temperatures isentrope_spline g S_interps V_interps where
    st: "reference_isentrope (lib_spline ?lib) r 1550 300100000 4
             = (Inr (entropy, pressures, temperatures, isentrope_spline), r')"
       "window_grid r' isentrope_spline (2, 5) 0 (1 / 4) 30 4 = Inr g"
       "smoothed_fields (lib_smoother ?lib) g 0 4 = Inr (S_interps, V_interps)"
       "interp_isentrope (lib_hybrd ?lib) (fst S_interps) pressures entropy 1550
          = Inr (rp_smoothed_temperatures prof)"
    using relaxed_profile_stages [OF rp] by blast
  have eq: "entropy = 1550" "pressures = example_pressures" "isentrope_spline = spl" "r' = r1"
    using st(1) ref by simp_all
  have g: "g = example_window" using st(2) win eq by simp
  show ?thesis
    using st(3,4) close eq g
    by (intro exI [of _ S_interps] exI [of _ V_interps]
        exI [of _ "rp_smoothed_temperatures prof"]) simp
qed

lemma interp_isentrope_loop_length:
  "interp_isentrope_loop hybrd interp ps S0 sol = Inr ts \<Longrightarrow> length ts = length ps"
proof (induction ps arbitrary: sol ts)
  case Nil
  then show ?case by simp
next
  case (Cons P Ps)
  then show ?case by (auto split: sum.splits)
qed

lemma evaluate_accepts:
  assumes "\<And>P T. accepts r P T" and "length ps = length ts"
  shows "evaluate names ps ts r = Inr (map (\<lambda>q. map2 (table r q) ps ts) names)"
  using assms by (simp add: evaluate_def list_ex_iff)

lemma assemble_profile_returns:
  assumes acc: "\<And>P T. accepts r P T"
    and len: "length smoothed = length pressures"
    and ne: "pressures \<noteq> []"
    and fits: "fits_succeed (lib_spline lib) (length pressures)"
  shows "\<exists>prof. assemble_profile lib r surface_gravity outer_radius pressures smoothed
                  S_interps V_interps = Inr prof"
proof -
  obtain S1 S2 S3 where S: "S_interps = (S1, S2, S3)" by (cases S_interps)
  obtain V1 V2 V3 where V: "V_interps = (V1, V2, V3)" by (cases V_interps)
  have ev: "evaluate names pressures ts r = Inr (map (\<lambda>q. map2 (table r q) pressures ts) names)"
    if "length ts = length pressures" for names ts
    using evaluate_accepts [OF acc, of pressures ts names] that by simp
  let ?rho = "map2 (table r Prop_rho) pressures smoothed"
  have lr: "length ?rho = length pressures" using len by simp
  obtain st where dg: "compute_depth_gravity_profiles (lib_spline lib) (lib_lsoda lib) (lib_G lib)
      pressures ?rho surface_gravity outer_radius = Inr st"
    unfolding compute_depth_gravity_profiles_def
    using gravity_iterations_returns [OF fits ne lr,
        where st = "([], replicate (length pressures) surface_gravity)"]
    by fastforce
  obtain depths gravity where st: "st = (depths, gravity)" by (cases st)
  show ?thesis
    unfolding assemble_profile_def Let_def S V
    using ev [of smoothed] ev [of "map (\<lambda>T. T - 1 / 10 / 2) smoothed"]
      ev [of "map (\<lambda>T. T + 1 / 10 / 2) smoothed"] len dg st
    by simp
qed

lemma example_relaxed_profile:
  "\<exists>prof r'. relaxed_profile example_library rock_plain 1550 300100000 (981 / 100) 6371000 4
      (2, 5) 0 (1 / 4) 30 4 0 0 = (Inr prof, r')"
proof -
  let ?r1 = "rock_plain\<lparr>state := Some (300100000, 1550)\<rparr>"
  obtain S_interps V_interps where
    f: "smoothed_fields smoother_steps example_window 0 4 = Inr (S_interps, V_interps)"
    by (simp add: smoothed_fields_def smoother_steps_def)
  have "\<forall>func x. snd (hybrd_newton func x) \<in> {1, 2, 3, 4, 5}"
    unfolding hybrd_newton_def using hybrd_newton_info by blast
  then obtain smoothed where
    sm: "interp_isentrope hybrd_newton (fst S_interps) example_pressures 1550 1550 = Inr smoothed"
    and len: "length smoothed = length example_pressures"
    unfolding interp_isentrope_def using interp_isentrope_loop_returns by blast
  have acc: "\<And>P T. accepts ?r1 P T" by (simp add: rock_plain_def)
  have ne: "example_pressures \<noteq> []" by (simp add: example_pressures_def)
  have fits: "fits_succeed (lib_spline example_library) (length example_pressures)"
    by (simp add: example_library_def example_pressures_def spline_linear_fits)
  obtain prof where a: "assemble_profile example_library ?r1 (981 / 100) 6371000
      example_pressures smoothed S_interps V_interps = Inr prof"
    using assemble_profile_returns [OF acc len ne fits] by blast
  have "relaxed_profile example_library rock_plain 1550 300100000 (981 / 100) 6371000 4
      (2, 5) 0 (1 / 4) 30 4 0 0 = (Inr prof, ?r1)"
    unfolding relaxed_profile_def
    using plain_reference plain_window f sm a by (simp add: example_library_def)
  then show ?thesis by blast
qed

text \<open>
  Claim C7, as amended. When \<open>relaxed_profile\<close> returns from a call with
  \<open>pressure_stdev = 0\<close> (and a non-negative \<open>max_temperature_stdev\<close>), the temperature
  width computed for the grid is 0 as well, and the smoothed temperatures returned are, one
  per profile pressure, what \<open>interp_isentrope\<close> finds for the reference entropy on the
  field that the smoother builds from the windowed grid samples. They depend on the
  evaluator through the reference entropy and the samples at the grid nodes only; nothing
  ties them to the unsmoothed isentrope temperatures between grid nodes.
\<close>

theorem zero_width_smoothed_temperatures:
  assumes "relaxed_profile lib r potential_temperature max_pressure surface_gravity outer_radius
             n_points n_gridpoints 0 temperature_smoothing_factor max_temperature_stdev
             truncate' min_grid_temperature max_grid_temperature = (Inr prof, r')"
    and "0 \<le> max_temperature_stdev"
  shows "\<exists>entropy pressures temperatures isentrope_spline g S_interps V_interps.
           reference_isentrope (lib_spline lib) r potential_temperature max_pressure n_points
             = (Inr (entropy, pressures, temperatures, isentrope_spline), r') \<and>
           window_grid r' isentrope_spline n_gridpoints 0 temperature_smoothing_factor
             max_temperature_stdev truncate' = Inr g \<and>
           temperature_stdev g = 0 \<and>
           smoothed_fields (lib_smoother lib) g 0 truncate' = Inr (S_interps, V_interps) \<and>
           interp_isentrope (lib_hybrd lib) (fst S_interps) pressures entropy
             potential_temperature = Inr (rp_smoothed_temperatures prof) \<and>
           length (rp_smoothed_temperatures prof) = length pressures"
proof -
  obtain entropy pressures temperatures isentrope_spline g S_interps V_interps where
    st: "reference_isentrope (lib_spline lib) r potential_temperature max_pressure n_points
             = (Inr (entropy, pressures, temperatures, isentrope_spline), r')"
       "window_grid r' isentrope_spline n_gridpoints 0 temperature_smoothing_factor
             max_temperature_stdev truncate' = Inr g"
       "smoothed_fields (lib_smoother lib) g 0 truncate' = Inr (S_interps, V_interps)"
       "interp_isentrope (lib_hybrd lib) (fst S_interps) pressures entropy
             potential_temperature = Inr (rp_smoothed_temperatures prof)"
    using relaxed_profile_stages [OF assms(1)] by blast
  obtain nP nT where n: "n_gridpoints = (nP, nT)" by (cases n_gridpoints)
  have "temperature_stdev g = 0"
    using window_grid_fields(3) [OF st(2) [unfolded n]] assms(2)
    by (rule temperature_stdev_zero)
  moreover have "length (rp_smoothed_temperatures prof) = length pressures"
    using st(4) unfolding interp_isentrope_def by (rule interp_isentrope_loop_length)
  ultimately show ?thesis using st by blast
qed

theorem zero_width_smoothed_temperatures_witness:
  "\<exists>prof r' entropy pressures temperatures isentrope_spline g.
     relaxed_profile example_library rock_plain 1550 300100000 (981 / 100) 6371000 4
       (2, 5) 0 (1 / 4) 30 4 0 0 = (Inr prof, r') \<and>
     reference_isentrope (lib_spline example_library) rock_plain 1550 300100000 4
       = (Inr (entropy, pressures, temperatures, isentrope_spline), r') \<and>
     window_grid r' isentrope_spline (2, 5) 0 (1 / 4) 30 4 = Inr g \<and>
     temperature_stdev g = 0 \<and>
     length (rp_smoothed_temperatures prof) = length pressures"
proof -
  obtain prof r' where
    rp: "relaxed_profile example_library rock_plain 1550 300100000 (981 / 100) 6371000 4
       (2, 5) 0 (1 / 4) 30 4 0 0 = (Inr prof, r')"
    using example_relaxed_profile by blast
  have m: "(0 :: real) \<le> 30" by simp
  show ?thesis
    using zero_width_smoothed_temperatures [OF rp m] rp by blast
qed

text \<open>
  Claim C7 as stated fails: whatever the smoother, the unbracketed solver and the integrator
  do, zero-width smoothing is not the identity within the root finder's tolerance on both
  \<open>rock_plain\<close> and \<open>rock_bowed\<close>. The two runs hand the same grid samples and the same
  target entropy to the smoother and the solver, hence return the same smoothed
  temperatures, while the unsmoothed isentropes are 1550 and 1548 at the second profile
  pressure.
\<close>

theorem zero_width_not_identity_counterexample:
  "\<forall>l h sm G g0 r0.
     \<not> (zero_width_identity
           \<lparr>lib_spline = spline_linear, lib_lsoda = l, lib_hybrd = h, lib_smoother = sm,
            lib_G = G\<rparr> rock_plain 1550 300100000 g0 r0 4 (2, 5) (1 / 4) 30 4
        \<and> zero_width_identity
           \<lparr>lib_spline = spline_linear, lib_lsoda = l, lib_hybrd = h, lib_smoother = sm,
            lib_G = G\<rparr> rock_bowed 1550 300100000 g0 r0 4 (2, 5) (1 / 4) 30 4)"
proof (intro allI notI)
  fix l h sm G g0 r0
  assume both: "zero_width_identity
           \<lparr>lib_spline = spline_linear, lib_lsoda = l, lib_hybrd = h, lib_smoother = sm,
            lib_G = G\<rparr> rock_plain 1550 300100000 g0 r0 4 (2, 5) (1 / 4) 30 4
        \<and> zero_width_identity
           \<lparr>lib_spline = spline_linear, lib_lsoda = l, lib_hybrd = h, lib_smoother = sm,
            lib_G = G\<rparr> rock_bowed 1550 300100000 g0 r0 4 (2, 5) (1 / 4) 30 4"
  obtain SA VA smA where
    A: "smoothed_fields sm example_window 0 4 = Inr (SA, VA)"
       "interp_isentrope h (fst SA) example_pressures 1550 1550 = Inr smA"
       "list_all2 (\<lambda>Ts T. \<bar>Ts - T\<bar> < brentq_xtol + brentq_rtol * \<bar>T\<bar>) smA
          [1550, 1550, 1550, 1550]"
    using identity_run_smoothed [OF conjunct1 [OF both] plain_reference plain_window] by blast
  obtain SB VB smB where
    B: "smoothed_fields sm example_window 0 4 = Inr (SB, VB)"
       "interp_isentrope h (fst SB) example_pressures 1550 1550 = Inr smB"
       "list_all2 (\<lambda>Ts T. \<bar>Ts - T\<bar> < brentq_xtol + brentq_rtol * \<bar>T\<bar>) smB
          [1550, 1548, 1548, 1550]"
    using identity_run_smoothed [OF conjunct2 [OF both] bowed_reference bowed_window] by blast
  have "SA = SB" using A(1) B(1) by simp
  then have same: "smA = smB" using A(2) B(2) by simp
  have a1: "\<bar>smA ! 1 - 1550\<bar> < brentq_xtol + brentq_rtol * \<bar>1550\<bar>"
    using A(3) by (auto simp: list_all2_Cons2)
  have b1: "\<bar>smB ! 1 - 1548\<bar> < brentq_xtol + brentq_rtol * \<bar>1548\<bar>"
    using B(3) by (auto simp: list_all2_Cons2)
  have small: "brentq_xtol + brentq_rtol * \<bar>1550\<bar> < 1" "brentq_xtol + brentq_rtol * \<bar>1548\<bar> < 1"
    by (simp_all add: brentq_xtol_def brentq_rtol_def)
  have a1': "\<bar>smB ! 1 - 1550\<bar> < 1" using a1 small(1) unfolding same by linarith
  have b1': "\<bar>smB ! 1 - 1548\<bar> < 1" using b1 small(2) by linarith
  show False using a1' b1' by linarith
qed

end
